theory Spec2Isabelle
  imports Main "HOL-Library.Sublist"
begin

section \<open>PmLogCtl: the command line front end of the logging library\<close>

text \<open>
  A shallow embedding of \<^verbatim>\<open>src/PmLogCtl.c\<close>. A C string is represented by the list
  of its characters before the terminating NUL; \<^verbatim>\<open>NULL\<close> is \<open>None\<close>. Where a library
  routine works on the bytes of a buffer (\<^verbatim>\<open>memcmp\<close>), the buffer of a string is the
  string followed by its terminator. A result \<open>None\<close> of a command stands for behaviour that
  C leaves undefined (a read or write past the end of an array, a NULL dereference) or that
  the sources at hand do not determine.
\<close>

subsection \<open>The C library routines the program calls\<close>

definition NUL :: char where
  "NUL = CHR 0x00"

definition bytes :: "string \<Rightarrow> char list" where
  "bytes s = s @ [NUL]"

text \<open>\<^verbatim>\<open>strchr(s, c)\<close> for a character \<open>c\<close> other than NUL: the offset of the first
  occurrence, \<open>None\<close> for the NULL result.\<close>

fun strchr :: "string \<Rightarrow> char \<Rightarrow> nat option" where
  "strchr [] c = None"
| "strchr (x # xs) c = (if x = c then Some 0 else map_option Suc (strchr xs c))"

text \<open>\<^verbatim>\<open>strcmp\<close>: the difference of the first two bytes that differ, read as unsigned
  bytes; the empty list stands at the terminator.\<close>

fun strcmp :: "string \<Rightarrow> string \<Rightarrow> int" where
  "strcmp [] [] = 0"
| "strcmp [] (y # ys) = 0 - of_char y"
| "strcmp (x # xs) [] = of_char x - 0"
| "strcmp (x # xs) (y # ys) =
     (if x = y then strcmp xs ys else of_char x - of_char y)"

text \<open>\<^verbatim>\<open>memcmp(a, b, n)\<close> on two byte arrays: \<open>None\<close> when an array ends before \<open>n\<close>
  bytes were compared and before a difference was found.\<close>

fun memcmp :: "char list \<Rightarrow> char list \<Rightarrow> nat \<Rightarrow> int option" where
  "memcmp a b 0 = Some 0"
| "memcmp (x # a) (y # b) (Suc n) =
     (if x = y then memcmp a b n else Some (of_char x - of_char y))"
| "memcmp a b (Suc n) = None"

text \<open>\<^verbatim>\<open>tolower\<close> in the C locale.\<close>

definition tolower :: "char \<Rightarrow> char" where
  "tolower c =
     (if (65::nat) \<le> of_char c \<and> of_char c \<le> (90::nat) then char_of (of_char c + (32::nat)) else c)"

text \<open>\<^verbatim>\<open>strcasecmp\<close>: as \<^verbatim>\<open>strcmp\<close> on the lower-cased bytes.\<close>

fun strcasecmp :: "string \<Rightarrow> string \<Rightarrow> int" where
  "strcasecmp [] [] = 0"
| "strcasecmp [] (y # ys) = 0 - of_char (tolower y)"
| "strcasecmp (x # xs) [] = of_char (tolower x) - 0"
| "strcasecmp (x # xs) (y # ys) =
     (if tolower x = tolower y then strcasecmp xs ys
      else of_char (tolower x) - of_char (tolower y))"

subsection \<open>Context names\<close>

text \<open>The name of the global context, a constant of \<^verbatim>\<open>PmLogLib.h\<close>; the comment of
  \<^verbatim>\<open>PrvResolveContextNameAlias\<close> gives its value.\<close>

definition kPmLogGlobalContextName :: string where
  "kPmLogGlobalContextName = ''<global>''"

definition PrvIsWildcardContextName :: "string \<Rightarrow> bool" where
  "PrvIsWildcardContextName matchContextName =
     (if strchr matchContextName (CHR ''*'') \<noteq> None then True else False)"

definition PrvMatchContextName :: "string \<Rightarrow> string option \<Rightarrow> bool option" where
  "PrvMatchContextName contextName matchContextName =
     (case matchContextName of
        None \<Rightarrow> Some True
      | Some pat \<Rightarrow>
          (case strchr pat (CHR ''*'') of
             None \<Rightarrow> Some (strcmp contextName pat = 0)
           | Some matchPrefixLen \<Rightarrow>
               if matchPrefixLen = 0 then Some True
               else map_option (\<lambda>d. d = 0)
                      (memcmp (bytes contextName) (bytes pat) matchPrefixLen)))"

definition PrvResolveContextNameAlias :: "string \<Rightarrow> string" where
  "PrvResolveContextNameAlias contextName =
     (if strcmp contextName ''.'' = 0 then kPmLogGlobalContextName else contextName)"

text \<open>A list of characters is a C string when it has no NUL in it.\<close>

definition cstring :: "string \<Rightarrow> bool" where
  "cstring s = (NUL \<notin> set s)"

subsection \<open>The logging library and the world the program runs in\<close>

text \<open>The error codes of \<^verbatim>\<open>PmLogLib.h\<close>. The program names two of them; every other code
  of the library is \<open>kPmLogErr_Other\<close> with its number.\<close>

datatype PmLogErr = kPmLogErr_None | kPmLogErr_Unknown | kPmLogErr_Other nat

text \<open>Modelled from the spec: the type \<^verbatim>\<open>Result\<close> of \<^verbatim>\<open>PmLogCtl.h\<close>, which is not among the
  sources: four logical outcomes, OK, parameter error, run error and help-shown.\<close>

datatype Result = RESULT_OK | RESULT_PARAM_ERR | RESULT_RUN_ERR | RESULT_HELP

text \<open>
  The library is a collaborator of the program: a record of its entry points over a library
  state \<open>'s\<close> and context handles \<open>'h\<close>, together with the constants of its header. A
  \<^verbatim>\<open>PmLogContext\<close> is a pointer, so a \<open>'h option\<close>. An entry point with an out-parameter
  returns the value the parameter holds after the call. \<open>PmLogPrint_raw\<close> is the library's
  \<^verbatim>\<open>PmLogPrint_\<close>; \<open>enabledLevel\<close> reads the field of that name through a handle.
\<close>

record ('s, 'h) PmLogLib =
  PmLogGetNumContexts :: "'s \<Rightarrow> PmLogErr \<times> int \<times> 's"
  PmLogGetIndContext :: "int \<Rightarrow> 's \<Rightarrow> PmLogErr \<times> 'h option \<times> 's"
  PmLogGetContextName :: "'h option \<Rightarrow> 's \<Rightarrow> PmLogErr \<times> string \<times> 's"
  PmLogFindContext :: "string \<Rightarrow> 's \<Rightarrow> PmLogErr \<times> 'h option \<times> 's"
  PmLogGetContext :: "string \<Rightarrow> 's \<Rightarrow> PmLogErr \<times> 'h option \<times> 's"
  PmLogSetContextLevel :: "'h option \<Rightarrow> int \<Rightarrow> 's \<Rightarrow> PmLogErr \<times> 's"
  PmLogPrint_raw :: "'h option \<Rightarrow> int \<Rightarrow> string \<Rightarrow> string list \<Rightarrow> 's \<Rightarrow> PmLogErr \<times> 's"
  PmLogPrint :: "'h option \<Rightarrow> int \<Rightarrow> string \<Rightarrow> string list \<Rightarrow> 's \<Rightarrow> PmLogErr \<times> 's"
  PmLogStringToLevel :: "string \<Rightarrow> int option"
  PmLogLevelToString :: "int \<Rightarrow> string option"
  PmLogGetErrDbgString :: "PmLogErr \<Rightarrow> string"
  enabledLevel :: "'s \<Rightarrow> 'h \<Rightarrow> int"
  kPmLogGlobalContext :: "'h option"
  kPmLogLevel_Notice :: int
  kPmLogLevel_Emergency :: int
  PMLOG_MAX_NUM_CONTEXTS :: nat

text \<open>The calls into the library that return an error code, as they are recorded.\<close>

datatype 'h libcall =
    Call_GetNumContexts
  | Call_GetIndContext int
  | Call_GetContextName "'h option"
  | Call_FindContext string
  | Call_GetContext string
  | Call_SetContextLevel "'h option" int
  | Call_Print_raw "'h option" int string "string list"
  | Call_Print "'h option" int string "string list"

text \<open>An argument of a \<^verbatim>\<open>printf\<close> call. Standard output is the list of the calls made, each
  with its format and arguments.\<close>

datatype parg = PStr string | PNull | PInt int | PErr PmLogErr

text \<open>
  The world: the state of the library, the calls made into it with the code each returned,
  standard output, and the kernel message device. The device is written through a buffered
  stream: \<open>kmsg\<close> holds the bytes the device has taken. \<open>fopen_err\<close> says whether opening
  the device fails, with the text of \<^verbatim>\<open>strerror\<close>. \<open>fprintf_err\<close> says whether \<^verbatim>\<open>fprintf\<close>
  fails, with the text of \<^verbatim>\<open>strerror\<close> and the number of bytes of the output that the device
  had taken by then. \<open>fclose_err\<close> says whether writing out the buffer fails when the stream
  is closed, with the number of bytes of the output that the device took before.
\<close>

record ('s, 'h) world =
  lib_state :: 's
  calls :: "('h libcall \<times> PmLogErr) list"
  stdout :: "(string \<times> parg list) list"
  fopen_err :: "string option"
  fprintf_err :: "(string \<times> nat) option"
  fclose_err :: "nat option"
  kmsg :: string

definition printf :: "string \<Rightarrow> parg list \<Rightarrow> ('s, 'h) world \<Rightarrow> ('s, 'h) world" where
  "printf fmt args w = w\<lparr>stdout := stdout w @ [(fmt, args)]\<rparr>"

definition call_GetNumContexts ::
  "('s, 'h) PmLogLib \<Rightarrow> ('s, 'h) world \<Rightarrow> PmLogErr \<times> int \<times> ('s, 'h) world" where
  "call_GetNumContexts L w =
     (case PmLogGetNumContexts L (lib_state w) of (e, n, s) \<Rightarrow>
        (e, n, w\<lparr>lib_state := s, calls := calls w @ [(Call_GetNumContexts, e)]\<rparr>))"

definition call_GetIndContext ::
  "('s, 'h) PmLogLib \<Rightarrow> int \<Rightarrow> ('s, 'h) world \<Rightarrow> PmLogErr \<times> 'h option \<times> ('s, 'h) world" where
  "call_GetIndContext L i w =
     (case PmLogGetIndContext L i (lib_state w) of (e, c, s) \<Rightarrow>
        (e, c, w\<lparr>lib_state := s, calls := calls w @ [(Call_GetIndContext i, e)]\<rparr>))"

definition call_GetContextName ::
  "('s, 'h) PmLogLib \<Rightarrow> 'h option \<Rightarrow> ('s, 'h) world \<Rightarrow> PmLogErr \<times> string \<times> ('s, 'h) world" where
  "call_GetContextName L c w =
     (case PmLogGetContextName L c (lib_state w) of (e, name, s) \<Rightarrow>
        (e, name, w\<lparr>lib_state := s, calls := calls w @ [(Call_GetContextName c, e)]\<rparr>))"

definition call_FindContext ::
  "('s, 'h) PmLogLib \<Rightarrow> string \<Rightarrow> ('s, 'h) world \<Rightarrow> PmLogErr \<times> 'h option \<times> ('s, 'h) world" where
  "call_FindContext L name w =
     (case PmLogFindContext L name (lib_state w) of (e, c, s) \<Rightarrow>
        (e, c, w\<lparr>lib_state := s, calls := calls w @ [(Call_FindContext name, e)]\<rparr>))"

definition call_GetContext ::
  "('s, 'h) PmLogLib \<Rightarrow> string \<Rightarrow> ('s, 'h) world \<Rightarrow> PmLogErr \<times> 'h option \<times> ('s, 'h) world" where
  "call_GetContext L name w =
     (case PmLogGetContext L name (lib_state w) of (e, c, s) \<Rightarrow>
        (e, c, w\<lparr>lib_state := s, calls := calls w @ [(Call_GetContext name, e)]\<rparr>))"

definition call_SetContextLevel ::
  "('s, 'h) PmLogLib \<Rightarrow> 'h option \<Rightarrow> int \<Rightarrow> ('s, 'h) world \<Rightarrow> PmLogErr \<times> ('s, 'h) world" where
  "call_SetContextLevel L c level w =
     (case PmLogSetContextLevel L c level (lib_state w) of (e, s) \<Rightarrow>
        (e, w\<lparr>lib_state := s, calls := calls w @ [(Call_SetContextLevel c level, e)]\<rparr>))"

definition call_Print_raw ::
  "('s, 'h) PmLogLib \<Rightarrow> 'h option \<Rightarrow> int \<Rightarrow> string \<Rightarrow> string list \<Rightarrow> ('s, 'h) world
     \<Rightarrow> PmLogErr \<times> ('s, 'h) world" where
  "call_Print_raw L c level fmt args w =
     (case PmLogPrint_raw L c level fmt args (lib_state w) of (e, s) \<Rightarrow>
        (e, w\<lparr>lib_state := s, calls := calls w @ [(Call_Print_raw c level fmt args, e)]\<rparr>))"

definition call_Print ::
  "('s, 'h) PmLogLib \<Rightarrow> 'h option \<Rightarrow> int \<Rightarrow> string \<Rightarrow> string list \<Rightarrow> ('s, 'h) world
     \<Rightarrow> PmLogErr \<times> ('s, 'h) world" where
  "call_Print L c level fmt args w =
     (case PmLogPrint L c level fmt args (lib_state w) of (e, s) \<Rightarrow>
        (e, w\<lparr>lib_state := s, calls := calls w @ [(Call_Print c level fmt args, e)]\<rparr>))"

subsection \<open>Enumerating the contexts\<close>

record 'h ContextInfo_t =
  "context" :: "'h option"
  contextName :: string

definition SortCmpContextInfoByName :: "'h ContextInfo_t \<Rightarrow> 'h ContextInfo_t \<Rightarrow> int" where
  "SortCmpContextInfoByName context1P context2P =
     strcasecmp (contextName context1P) (contextName context2P)"

text \<open>\<^verbatim>\<open>qsort\<close> of the C library with a comparison function, as a sort by insertion. C does
  not say in which order elements that compare equal come out; nothing below depends on it.\<close>

fun qsort_insert :: "('a \<Rightarrow> 'a \<Rightarrow> int) \<Rightarrow> 'a \<Rightarrow> 'a list \<Rightarrow> 'a list" where
  "qsort_insert cmp x [] = [x]"
| "qsort_insert cmp x (y # ys) =
     (if cmp x y \<le> 0 then x # y # ys else y # qsort_insert cmp x ys)"

fun qsort :: "('a \<Rightarrow> 'a \<Rightarrow> int) \<Rightarrow> 'a list \<Rightarrow> 'a list" where
  "qsort cmp [] = []"
| "qsort cmp (x # xs) = qsort_insert cmp x (qsort cmp xs)"

text \<open>
  The loop of \<^verbatim>\<open>PrvGetContextList\<close>. \<open>infos\<close> is the filled part of the array
  \<^verbatim>\<open>contextInfos\<close>, of length \<^verbatim>\<open>numContexts\<close>; the array has
  \<^verbatim>\<open>PMLOG_MAX_NUM_CONTEXTS + 1\<close> slots. Each round first writes the slot at index
  \<^verbatim>\<open>numContexts\<close>, which lies past the end of the array once all slots are filled.
  A result with an error code other than \<open>kPmLogErr_None\<close> is an early return.
\<close>

function PrvGetContextList_loop ::
  "('s, 'h) PmLogLib \<Rightarrow> string option \<Rightarrow> int \<Rightarrow> int \<Rightarrow> 'h ContextInfo_t list \<Rightarrow> ('s, 'h) world
     \<Rightarrow> (PmLogErr \<times> 'h ContextInfo_t list \<times> ('s, 'h) world) option" where
  "PrvGetContextList_loop L matchContextName i n infos w =
     (if i < n then
        if length infos \<ge> PMLOG_MAX_NUM_CONTEXTS L + 1 then None
        else
          (case call_GetIndContext L i w of (logErr, c, w1) \<Rightarrow>
             if logErr \<noteq> kPmLogErr_None then Some (logErr, infos, w1)
             else
               (case call_GetContextName L c w1 of (logErr, name, w2) \<Rightarrow>
                  if logErr \<noteq> kPmLogErr_None then Some (logErr, infos, w2)
                  else
                    (case PrvMatchContextName name matchContextName of
                       None \<Rightarrow> None
                     | Some matched \<Rightarrow>
                         if \<not> matched then
                           PrvGetContextList_loop L matchContextName (i + 1) n infos w2
                         else if length infos \<ge> PMLOG_MAX_NUM_CONTEXTS L + 1
                           then Some (kPmLogErr_Unknown, infos, w2)
                         else PrvGetContextList_loop L matchContextName (i + 1) n
                                (infos @ [\<lparr>context = c, contextName = name\<rparr>]) w2)))
      else Some (kPmLogErr_None, infos, w))"
  by pat_completeness auto
termination
  by (relation "measure (\<lambda>(L, m, i, n, infos, w). nat (n - i))") auto

definition PrvGetContextList ::
  "('s, 'h) PmLogLib \<Rightarrow> string option \<Rightarrow> ('s, 'h) world
     \<Rightarrow> (PmLogErr \<times> 'h ContextInfo_t list \<times> ('s, 'h) world) option" where
  "PrvGetContextList L matchContextName w =
     (case call_GetNumContexts L w of (logErr, n, w1) \<Rightarrow>
        if logErr \<noteq> kPmLogErr_None then Some (logErr, [], w1)
        else if n \<le> 0 then Some (kPmLogErr_Unknown, [], w1)
        else
          (case PrvGetContextList_loop L matchContextName 0 n [] w1 of
             None \<Rightarrow> None
           | Some (logErr, infos, w2) \<Rightarrow>
               if logErr \<noteq> kPmLogErr_None then Some (logErr, infos, w2)
               else Some (kPmLogErr_None,
                          (if length infos > 0 then qsort SortCmpContextInfoByName infos
                           else infos), w2)))"

subsection \<open>The commands\<close>

definition SuggestHelp :: "('s, 'h) world \<Rightarrow> ('s, 'h) world" where
  "SuggestHelp w = printf ''Use -help for usage information.\<newline>'' [] w"

text \<open>\<^verbatim>\<open>ShowContext\<close> reads \<^verbatim>\<open>context->enabledLevel\<close>: no result for a NULL context.\<close>

definition ShowContext ::
  "('s, 'h) PmLogLib \<Rightarrow> 'h ContextInfo_t \<Rightarrow> ('s, 'h) world \<Rightarrow> ('s, 'h) world option" where
  "ShowContext L contextInfoP w =
     (case context contextInfoP of
        None \<Rightarrow> None
      | Some h \<Rightarrow>
          (let levelStr = (case PmLogLevelToString L (enabledLevel L (lib_state w) h) of
                             None \<Rightarrow> ''Unknown''
                           | Some str \<Rightarrow> str)
           in Some (printf ''Context '%s' = %s\<newline>''
                      [PStr (contextName contextInfoP), PStr levelStr] w)))"

fun ShowContexts ::
  "('s, 'h) PmLogLib \<Rightarrow> 'h ContextInfo_t list \<Rightarrow> ('s, 'h) world \<Rightarrow> ('s, 'h) world option" where
  "ShowContexts L [] w = Some w"
| "ShowContexts L (contextInfoP # rest) w =
     (case ShowContext L contextInfoP w of
        None \<Rightarrow> None
      | Some w1 \<Rightarrow> ShowContexts L rest w1)"

definition print_lib_error ::
  "('s, 'h) PmLogLib \<Rightarrow> string \<Rightarrow> PmLogErr \<Rightarrow> ('s, 'h) world \<Rightarrow> ('s, 'h) world" where
  "print_lib_error L fmt logErr w = printf fmt [PErr logErr, PStr (PmLogGetErrDbgString L logErr)] w"

text \<open>The commands take \<^verbatim>\<open>argv\<close> as a list, \<^verbatim>\<open>argc\<close> being its length; \<^verbatim>\<open>argv[0]\<close> is the
  name of the command.\<close>

definition DoCmdShow ::
  "('s, 'h) PmLogLib \<Rightarrow> string list \<Rightarrow> ('s, 'h) world \<Rightarrow> (Result \<times> ('s, 'h) world) option" where
  "DoCmdShow L argv w =
     (let matchContextName =
            (if length argv \<ge> 2 then Some (PrvResolveContextNameAlias (argv ! 1)) else None)
      in
        if length argv \<ge> 3
          then Some (RESULT_PARAM_ERR, printf ''Invalid parameter '%s'\<newline>'' [PStr (argv ! 2)] w)
        else
          (case PrvGetContextList L matchContextName w of
             None \<Rightarrow> None
           | Some (logErr, contextInfos, w1) \<Rightarrow>
               if logErr \<noteq> kPmLogErr_None
                 then Some (RESULT_RUN_ERR,
                        print_lib_error L ''Error getting contexts info: 0x%08X (%s)\<newline>'' logErr w1)
               else
                 (case ShowContexts L contextInfos w1 of
                    None \<Rightarrow> None
                  | Some w2 \<Rightarrow>
                      (case matchContextName of
                         None \<Rightarrow> Some (RESULT_OK, w2)
                       | Some pat \<Rightarrow>
                           if length contextInfos = 0 then
                             (if PrvIsWildcardContextName pat
                                then Some (RESULT_RUN_ERR,
                                       printf ''No contexts matched '%s'.\<newline>'' [PStr pat] w2)
                              else Some (RESULT_RUN_ERR,
                                       printf ''Context '%s' not found.\<newline>'' [PStr pat] w2))
                           else Some (RESULT_OK, w2)))))"

text \<open>
  The argument loop of \<^verbatim>\<open>DoCmdSet\<close> over \<^verbatim>\<open>argv[1]\<close> onwards, with the variables
  \<^verbatim>\<open>matchContextName\<close>, \<^verbatim>\<open>matchedContext\<close> and \<^verbatim>\<open>levelIntP\<close>. \<open>Inl\<close> is a return from
  inside the loop, \<open>Inr\<close> the variables when the loop ends.
\<close>

fun DoCmdSet_args ::
  "('s, 'h) PmLogLib \<Rightarrow> string list \<Rightarrow> string option \<times> 'h option \<times> int option \<Rightarrow> ('s, 'h) world
     \<Rightarrow> (Result + string option \<times> 'h option \<times> int option) \<times> ('s, 'h) world" where
  "DoCmdSet_args L [] vars w = (Inr vars, w)"
| "DoCmdSet_args L (arg # rest) (matchContextName, matchedContext, levelIntP) w =
     (if matchContextName = None then
        (let name = PrvResolveContextNameAlias arg in
           if \<not> PrvIsWildcardContextName name then
             (case call_FindContext L name w of (logErr, c, w1) \<Rightarrow>
                if logErr \<noteq> kPmLogErr_None
                  then (Inl RESULT_PARAM_ERR, printf ''Context '%s' not found.\<newline>'' [PStr name] w1)
                else DoCmdSet_args L rest (Some name, c, levelIntP) w1)
           else DoCmdSet_args L rest (Some name, matchedContext, levelIntP) w)
      else if levelIntP = None then
        (case PmLogStringToLevel L arg of
           None \<Rightarrow> (Inl RESULT_PARAM_ERR, printf ''Invalid level '%s'.\<newline>'' [PStr arg] w)
         | Some level \<Rightarrow> DoCmdSet_args L rest (matchContextName, matchedContext, Some level) w)
      else (Inl RESULT_PARAM_ERR, printf ''Invalid parameter '%s'.\<newline>'' [PStr arg] w))"

text \<open>The loop of \<^verbatim>\<open>DoCmdSet\<close> over the matched contexts.\<close>

fun DoCmdSet_loop ::
  "('s, 'h) PmLogLib \<Rightarrow> int \<Rightarrow> 'h ContextInfo_t list \<Rightarrow> ('s, 'h) world \<Rightarrow> Result \<times> ('s, 'h) world" where
  "DoCmdSet_loop L level [] w = (RESULT_OK, w)"
| "DoCmdSet_loop L level (contextInfoP # rest) w =
     (let w1 = printf ''Setting context level for '%s'.\<newline>'' [PStr (contextName contextInfoP)] w
      in case call_SetContextLevel L (context contextInfoP) level w1 of (logErr, w2) \<Rightarrow>
           if logErr \<noteq> kPmLogErr_None
             then (RESULT_RUN_ERR,
                   print_lib_error L ''Error setting context log level: 0x%08X (%s)\<newline>'' logErr w2)
           else DoCmdSet_loop L level rest w2)"

definition DoCmdSet ::
  "('s, 'h) PmLogLib \<Rightarrow> string list \<Rightarrow> ('s, 'h) world \<Rightarrow> (Result \<times> ('s, 'h) world) option" where
  "DoCmdSet L argv w =
     (case DoCmdSet_args L (tl argv) (None, None, None) w of
        (Inl result, w1) \<Rightarrow> Some (result, w1)
      | (Inr (matchContextName, matchedContext, levelIntP), w1) \<Rightarrow>
          (case matchContextName of
             None \<Rightarrow> Some (RESULT_PARAM_ERR, printf ''Context not specified.\<newline>'' [] w1)
           | Some pat \<Rightarrow>
               (case levelIntP of
                  None \<Rightarrow> Some (RESULT_PARAM_ERR, printf ''Level not specified.\<newline>'' [] w1)
                | Some level \<Rightarrow>
                    (case matchedContext of
                       None \<Rightarrow>
                         (case PrvGetContextList L (Some pat) w1 of
                            None \<Rightarrow> None
                          | Some (logErr, contextInfos, w2) \<Rightarrow>
                              if logErr \<noteq> kPmLogErr_None
                                then Some (RESULT_RUN_ERR,
                                       print_lib_error L
                                         ''Error getting contexts info: 0x%08X (%s)\<newline>'' logErr w2)
                              else if length contextInfos = 0
                                then Some (RESULT_RUN_ERR,
                                       printf ''No contexts matched '%s'.\<newline>'' [PStr pat] w2)
                              else Some (DoCmdSet_loop L level contextInfos w2))
                     | Some h \<Rightarrow>
                         (let w2 = printf ''Setting context level for '%s'.\<newline>'' [PStr pat] w1
                          in case call_SetContextLevel L (Some h) level w2 of (logErr, w3) \<Rightarrow>
                               if logErr \<noteq> kPmLogErr_None
                                 then Some (RESULT_RUN_ERR,
                                        print_lib_error L
                                          ''Error setting context log level: 0x%08X (%s)\<newline>''
                                          logErr w3)
                               else Some (RESULT_OK, w3))))))"

text \<open>The argument loop of \<^verbatim>\<open>DoCmdLog\<close>, with \<^verbatim>\<open>contextName\<close> (here \<open>ctxName\<close>),
  \<^verbatim>\<open>context\<close>, \<^verbatim>\<open>levelIntP\<close> and \<^verbatim>\<open>msg\<close>.\<close>

fun DoCmdLog_args ::
  "('s, 'h) PmLogLib \<Rightarrow> string list \<Rightarrow> string option \<times> 'h option \<times> int option \<times> string option
     \<Rightarrow> ('s, 'h) world
     \<Rightarrow> (Result + string option \<times> 'h option \<times> int option \<times> string option) \<times> ('s, 'h) world" where
  "DoCmdLog_args L [] vars w = (Inr vars, w)"
| "DoCmdLog_args L (arg # rest) (ctxName, c, levelIntP, msg) w =
     (if ctxName = None then
        (let name = PrvResolveContextNameAlias arg in
           case call_FindContext L name w of (logErr, c1, w1) \<Rightarrow>
             if logErr \<noteq> kPmLogErr_None
               then (Inl RESULT_PARAM_ERR, printf ''Invalid context '%s'.\<newline>'' [PStr arg] w1)
             else DoCmdLog_args L rest (Some name, c1, levelIntP, msg) w1)
      else if levelIntP = None then
        (case PmLogStringToLevel L arg of
           None \<Rightarrow> (Inl RESULT_PARAM_ERR, printf ''Invalid level '%s'.\<newline>'' [PStr arg] w)
         | Some level \<Rightarrow>
             if level = - 1
               then (Inl RESULT_PARAM_ERR, printf ''Invalid level '%s'.\<newline>'' [PStr arg] w)
             else DoCmdLog_args L rest (ctxName, c, Some level, msg) w)
      else if msg = None then DoCmdLog_args L rest (ctxName, c, levelIntP, Some arg) w
      else (Inl RESULT_PARAM_ERR, printf ''Invalid parameter '%s'.\<newline>'' [PStr arg] w))"

definition DoCmdLog ::
  "('s, 'h) PmLogLib \<Rightarrow> string list \<Rightarrow> ('s, 'h) world \<Rightarrow> (Result \<times> ('s, 'h) world) option" where
  "DoCmdLog L argv w =
     (let vars = (if length argv = 2
                    then (Some kPmLogGlobalContextName, kPmLogGlobalContext L,
                          Some (kPmLogLevel_Notice L), None)
                  else (None, None, None, None))
      in case DoCmdLog_args L (tl argv) vars w of
           (Inl result, w1) \<Rightarrow> Some (result, w1)
         | (Inr (ctxName, c, levelIntP, msg), w1) \<Rightarrow>
             if ctxName = None
               then Some (RESULT_PARAM_ERR, printf ''Context not specified.\<newline>'' [] w1)
             else
               (case levelIntP of
                  None \<Rightarrow> Some (RESULT_PARAM_ERR, printf ''Level not specified.\<newline>'' [] w1)
                | Some level \<Rightarrow>
                    (case msg of
                       None \<Rightarrow> Some (RESULT_PARAM_ERR, printf ''Message not specified.\<newline>'' [] w1)
                     | Some m \<Rightarrow>
                         (case call_Print_raw L c level ''%s'' [m] w1 of (logErr, w2) \<Rightarrow>
                            if logErr \<noteq> kPmLogErr_None
                              then Some (RESULT_RUN_ERR,
                                     print_lib_error L ''Error logging: 0x%08X (%s)\<newline>'' logErr w2)
                            else Some (RESULT_OK, w2)))))"

text \<open>Decimal digits, for the conversion \<^verbatim>\<open>%d\<close>.\<close>

fun dec_nat :: "nat \<Rightarrow> string" where
  "dec_nat n =
     (if n < 10 then [char_of (48 + n)] else dec_nat (n div 10) @ [char_of (48 + n mod 10)])"

definition dec_int :: "int \<Rightarrow> string" where
  "dec_int i = (if i < 0 then CHR ''-'' # dec_nat (nat (- i)) else dec_nat (nat i))"

text \<open>Modelled from the spec: the helper \<^verbatim>\<open>mysprintf\<close> is not among the sources. Called with the
  format \<^verbatim>\<open><%d>\<close> it gives ``the numeric level in angle brackets''. The text and its terminator
  have to fit the buffer of \<open>dstSize\<close> bytes; what the helper does when they do not is not known,
  and the model gives no result there.\<close>

definition mysprintf_priority :: "nat \<Rightarrow> int \<Rightarrow> string option" where
  "mysprintf_priority dstSize priority =
     (let str = ''<'' @ dec_int priority @ ''>''
      in if length str < dstSize then Some str else None)"

definition kKMsgPath :: string where
  "kKMsgPath = ''/dev/kmsg''"

text \<open>
  \<^verbatim>\<open>WriteKMsg\<close>. The line goes to the buffer of the stream with \<^verbatim>\<open>fprintf\<close>, whose result
  decides between \<open>RESULT_OK\<close> and \<open>RESULT_RUN_ERR\<close>; the buffer is written out by
  \<^verbatim>\<open>fclose\<close>, whose result the program discards. When either of them fails, only a front
  part of the line has reached the device.
\<close>

definition WriteKMsg ::
  "int \<Rightarrow> string \<Rightarrow> ('s, 'h) world \<Rightarrow> (Result \<times> ('s, 'h) world) option" where
  "WriteKMsg priority msgStr w =
     (case fopen_err w of
        Some err \<Rightarrow>
          Some (RESULT_RUN_ERR, printf ''Error opening %s: %s'' [PStr kKMsgPath, PStr err] w)
      | None \<Rightarrow>
          (case (if priority \<ge> 0 then mysprintf_priority 8 priority else Some []) of
             None \<Rightarrow> None
           | Some priorityStr \<Rightarrow>
               (let line = priorityStr @ msgStr @ ''\<newline>'' in
                  case fprintf_err w of
                    Some (err, taken) \<Rightarrow>
                      Some (RESULT_RUN_ERR,
                            (printf ''Error writing %s: %s'' [PStr kKMsgPath, PStr err] w)
                              \<lparr>kmsg := kmsg w @ take taken line\<rparr>)
                  | None \<Rightarrow>
                      (case fclose_err w of
                         Some taken \<Rightarrow> Some (RESULT_OK, w\<lparr>kmsg := kmsg w @ take taken line\<rparr>)
                       | None \<Rightarrow> Some (RESULT_OK, w\<lparr>kmsg := kmsg w @ line\<rparr>)))))"

text \<open>The argument loop of \<^verbatim>\<open>DoCmdKLog\<close>, with \<^verbatim>\<open>level\<close> and \<^verbatim>\<open>msg\<close>.\<close>

fun DoCmdKLog_args ::
  "('s, 'h) PmLogLib \<Rightarrow> string list \<Rightarrow> int \<times> string option \<Rightarrow> ('s, 'h) world
     \<Rightarrow> (Result + int \<times> string option) \<times> ('s, 'h) world" where
  "DoCmdKLog_args L [] vars w = (Inr vars, w)"
| "DoCmdKLog_args L (arg # rest) (level, msg) w =
     (if (case arg of [] \<Rightarrow> False | ch # _ \<Rightarrow> ch = CHR ''-'') then
        (if strcmp arg ''-p'' = 0 then
           (case rest of
              [] \<Rightarrow> (Inl RESULT_PARAM_ERR,
                     printf ''Invalid parameter: -p requires value\<newline>'' [] w)
            | arg1 # rest1 \<Rightarrow>
                (case PmLogStringToLevel L arg1 of
                   None \<Rightarrow> (Inl RESULT_PARAM_ERR, printf ''Invalid level '%s'.\<newline>'' [PStr arg1] w)
                 | Some level1 \<Rightarrow> DoCmdKLog_args L rest1 (level1, msg) w))
         else (Inl RESULT_PARAM_ERR, printf ''Invalid parameter '%s'.\<newline>'' [PStr arg] w))
      else if msg = None then DoCmdKLog_args L rest (level, Some arg) w
      else (Inl RESULT_PARAM_ERR, printf ''Invalid parameter '%s'.\<newline>'' [PStr arg] w))"

definition DoCmdKLog ::
  "('s, 'h) PmLogLib \<Rightarrow> string list \<Rightarrow> ('s, 'h) world \<Rightarrow> (Result \<times> ('s, 'h) world) option" where
  "DoCmdKLog L argv w =
     (case DoCmdKLog_args L (tl argv) (kPmLogLevel_Notice L, None) w of
        (Inl result, w1) \<Rightarrow> Some (result, w1)
      | (Inr (level, msg), w1) \<Rightarrow>
          (case msg of
             None \<Rightarrow> Some (RESULT_PARAM_ERR, printf ''Message not specified.\<newline>'' [] w1)
           | Some m \<Rightarrow> WriteKMsg level m w1))"

definition DoCmdFlush ::
  "('s, 'h) PmLogLib \<Rightarrow> ('s, 'h) world \<Rightarrow> (Result \<times> ('s, 'h) world) option" where
  "DoCmdFlush L w =
     (case call_FindContext L ''PmLogCtl'' w of (logErr, c, w1) \<Rightarrow>
        if logErr \<noteq> kPmLogErr_None
          then Some (RESULT_RUN_ERR,
                 print_lib_error L ''Error getting context PmLogCtl: 0x%08X (%s)\<newline>'' logErr w1)
        else
          (case call_Print L c (kPmLogLevel_Emergency L) ''Manually Flushing Buffers'' [] w1 of
             (logErr, w2) \<Rightarrow>
               if logErr \<noteq> kPmLogErr_None
                 then Some (RESULT_RUN_ERR,
                        print_lib_error L ''Error logging: 0x%08X (%s)\<newline>'' logErr w2)
               else Some (RESULT_OK, w2)))"

definition DoCmdReConf ::
  "('s, 'h) PmLogLib \<Rightarrow> string list \<Rightarrow> ('s, 'h) world \<Rightarrow> (Result \<times> ('s, 'h) world) option" where
  "DoCmdReConf L argv w =
     (case tl argv of
        arg # _ \<Rightarrow> Some (RESULT_PARAM_ERR, printf ''Invalid parameter '%s'.\<newline>'' [PStr arg] w)
      | [] \<Rightarrow>
          (case call_Print_raw L (kPmLogGlobalContext L) (kPmLogLevel_Emergency L)
                  ''!loglib loadconf'' [] w of
             (logErr, w1) \<Rightarrow>
               if logErr \<noteq> kPmLogErr_None
                 then Some (RESULT_RUN_ERR,
                        print_lib_error L ''Error logging: 0x%08X (%s)\<newline>'' logErr w1)
               else Some (RESULT_OK, w1)))"

definition kLevelNotSpecified :: int where
  "kLevelNotSpecified = - 999"

text \<open>The argument loop of \<^verbatim>\<open>DoCmdDef\<close>, with \<^verbatim>\<open>contextName\<close> (here \<open>ctxName\<close>),
  \<^verbatim>\<open>context\<close>, \<^verbatim>\<open>levelIntP\<close> and \<^verbatim>\<open>level\<close>.\<close>

fun DoCmdDef_args ::
  "('s, 'h) PmLogLib \<Rightarrow> string list \<Rightarrow> string option \<times> 'h option \<times> int option \<times> int
     \<Rightarrow> ('s, 'h) world
     \<Rightarrow> (Result + string option \<times> 'h option \<times> int option \<times> int) \<times> ('s, 'h) world" where
  "DoCmdDef_args L [] vars w = (Inr vars, w)"
| "DoCmdDef_args L (arg # rest) (ctxName, c, levelIntP, level) w =
     (if ctxName = None then
        (let name = PrvResolveContextNameAlias arg in
           case call_FindContext L name w of (logErr, c1, w1) \<Rightarrow>
             if logErr = kPmLogErr_None
               then (Inl RESULT_PARAM_ERR,
                     printf ''Context '%s' is already defined.\<newline>'' [PStr name] w1)
             else DoCmdDef_args L rest (Some name, c1, levelIntP, level) w1)
      else if levelIntP = None then
        (case PmLogStringToLevel L arg of
           None \<Rightarrow> (Inl RESULT_PARAM_ERR, printf ''Invalid level '%s'.\<newline>'' [PStr arg] w)
         | Some level1 \<Rightarrow> DoCmdDef_args L rest (ctxName, c, Some level1, level1) w)
      else (Inl RESULT_PARAM_ERR, printf ''Invalid parameter '%s'.\<newline>'' [PStr arg] w))"

definition DoCmdDef ::
  "('s, 'h) PmLogLib \<Rightarrow> string list \<Rightarrow> ('s, 'h) world \<Rightarrow> (Result \<times> ('s, 'h) world) option" where
  "DoCmdDef L argv w =
     (case DoCmdDef_args L (tl argv) (None, None, None, kLevelNotSpecified) w of
        (Inl result, w1) \<Rightarrow> Some (result, w1)
      | (Inr (ctxName, c, levelIntP, level), w1) \<Rightarrow>
          (case ctxName of
             None \<Rightarrow> Some (RESULT_PARAM_ERR, printf ''Context not specified.\<newline>'' [] w1)
           | Some name \<Rightarrow>
               (case call_GetContext L name w1 of (logErr, c1, w2) \<Rightarrow>
                  if logErr \<noteq> kPmLogErr_None
                    then Some (RESULT_RUN_ERR,
                           print_lib_error L ''Error defining context: 0x%08X (%s)\<newline>'' logErr w2)
                  else if level \<noteq> kLevelNotSpecified then
                    (case call_SetContextLevel L c1 level w2 of (logErr, w3) \<Rightarrow>
                       if logErr \<noteq> kPmLogErr_None
                         then Some (RESULT_RUN_ERR,
                                print_lib_error L
                                  ''Error setting context log level: 0x%08X (%s)\<newline>'' logErr w3)
                       else Some (RESULT_OK, w3))
                  else Some (RESULT_OK, w2))))"

definition ShowUsage :: "('s, 'h) PmLogLib \<Rightarrow> ('s, 'h) world \<Rightarrow> ('s, 'h) world" where
  "ShowUsage L w =
     (let w1 = fold (\<lambda>fmt. printf fmt [])
                 [''PmLogCtl COMMAND [PARAM...]\<newline>'',
                  ''  help                         # show usage info\<newline>'',
                  ''  def <context> [<level>]      # define logging context\<newline>'',
                  ''  flush                        # flush all ring buffers\<newline>'',
                  ''  log <context> <level> <msg>  # log a message\<newline>'',
                  ''  klog [-p <level>] <msg>      # log a kernel message\<newline>'',
                  ''  reconf                       # re-load lib options from conf\<newline>'',
                  ''  set <context> <level>        # set logging context level\<newline>'',
                  ''  show [<context>]             # show logging context(s)\<newline>'',
                  ''\<newline>'',
                  ''Contexts:\<newline>'',
                  ''  The global context can be specified as '.'\<newline>'',
                  ''\<newline>'',
                  ''Levels:\<newline>''] w
      in fold (\<lambda>level.
                 printf ''  %-10s  # %d\<newline>''
                   [(case PmLogLevelToString L level of None \<Rightarrow> PNull | Some str \<Rightarrow> PStr str),
                    PInt level])
           [- 1 .. 7] w1)"

subsection \<open>The program\<close>

text \<open>\<^verbatim>\<open>EXIT_SUCCESS\<close> and \<^verbatim>\<open>EXIT_FAILURE\<close> of \<^verbatim>\<open>stdlib.h\<close>.\<close>

definition EXIT_SUCCESS :: int where
  "EXIT_SUCCESS = 0"

definition EXIT_FAILURE :: int where
  "EXIT_FAILURE = 1"

text \<open>
  The body of the \<^verbatim>\<open>do\<close> block of \<^verbatim>\<open>main\<close>, which computes \<^verbatim>\<open>result\<close>. Here \<^verbatim>\<open>argv\<close> is
  the full argument vector, \<^verbatim>\<open>argv[0]\<close> the name of the program. The command \<^verbatim>\<open>view\<close> is
  implemented outside \<^verbatim>\<open>PmLogCtl.c\<close>; it is the parameter \<open>DoCmdView\<close>.
\<close>

definition main_result ::
  "('s, 'h) PmLogLib \<Rightarrow> (string list \<Rightarrow> ('s, 'h) world \<Rightarrow> (Result \<times> ('s, 'h) world) option)
     \<Rightarrow> string list \<Rightarrow> ('s, 'h) world \<Rightarrow> (Result \<times> ('s, 'h) world) option" where
  "main_result L DoCmdView argv w =
     (if length argv < 2 then Some (RESULT_PARAM_ERR, printf ''No command specified.\<newline>'' [] w)
      else
        (let cmd = argv ! 1 in
           if strcmp cmd ''def'' = 0 then DoCmdDef L (tl argv) w
           else if strcmp cmd ''log'' = 0 then DoCmdLog L (tl argv) w
           else if strcmp cmd ''klog'' = 0 then DoCmdKLog L (tl argv) w
           else if strcmp cmd ''reconf'' = 0 then DoCmdReConf L (tl argv) w
           else if strcmp cmd ''set'' = 0 then DoCmdSet L (tl argv) w
           else if strcmp cmd ''show'' = 0 then DoCmdShow L (tl argv) w
           else if strcmp cmd ''view'' = 0 then DoCmdView (tl argv) w
           else if strcmp cmd ''flush'' = 0 then DoCmdFlush L w
           else if strcmp cmd ''help'' = 0 \<or> strcmp cmd ''-help'' = 0
             then Some (RESULT_HELP, ShowUsage L w)
           else Some (RESULT_PARAM_ERR, printf ''Invalid command '%s'\<newline>'' [PStr cmd] w)))"

text \<open>\<^verbatim>\<open>main\<close>: the status passed to \<^verbatim>\<open>exit\<close>, and the world at that point.\<close>

definition main ::
  "('s, 'h) PmLogLib \<Rightarrow> (string list \<Rightarrow> ('s, 'h) world \<Rightarrow> (Result \<times> ('s, 'h) world) option)
     \<Rightarrow> string list \<Rightarrow> ('s, 'h) world \<Rightarrow> (int \<times> ('s, 'h) world) option" where
  "main L DoCmdView argv w =
     (case main_result L DoCmdView argv w of
        None \<Rightarrow> None
      | Some (result, w1) \<Rightarrow>
          (let w2 = (if result = RESULT_PARAM_ERR then SuggestHelp w1 else w1)
           in Some ((if result = RESULT_OK then EXIT_SUCCESS else EXIT_FAILURE), w2)))"

subsection \<open>A registry to run the commands on\<close>

text \<open>
  Modelled from the spec: the logging library is not among the sources. \<open>fakeLib\<close> is a
  registry as the contract of the library describes it: the contexts are a list of names
  with their levels, a handle is an index into the list, looking a name up fails when no
  context has it, get-or-create appends a context, and the level names are those of syslog
  with their ranks (\<^verbatim>\<open>err\<close> is 3, \<^verbatim>\<open>notice\<close> is 5). It serves to evaluate the commands at
  concrete inputs; the general statements below hold for every library.
\<close>

definition fake_levels :: "(string \<times> int) list" where
  "fake_levels =
     [(''none'', - 1), (''emerg'', 0), (''alert'', 1), (''crit'', 2), (''err'', 3),
      (''warning'', 4), (''notice'', 5), (''info'', 6), (''debug'', 7)]"

fun fake_find :: "string \<Rightarrow> (string \<times> int) list \<Rightarrow> nat option" where
  "fake_find name [] = None"
| "fake_find name (c # cs) =
     (if fst c = name then Some 0 else map_option Suc (fake_find name cs))"

definition fakeLib :: "((string \<times> int) list, nat) PmLogLib" where
  "fakeLib =
     \<lparr> PmLogGetNumContexts = (\<lambda>s. (kPmLogErr_None, int (length s), s)),
       PmLogGetIndContext =
         (\<lambda>i s. if 0 \<le> i \<and> i < int (length s) then (kPmLogErr_None, Some (nat i), s)
                else (kPmLogErr_Other 2, None, s)),
       PmLogGetContextName =
         (\<lambda>c s. case c of
                  None \<Rightarrow> (kPmLogErr_Other 3, [], s)
                | Some h \<Rightarrow> if h < length s then (kPmLogErr_None, fst (s ! h), s)
                            else (kPmLogErr_Other 3, [], s)),
       PmLogFindContext =
         (\<lambda>name s. case fake_find name s of
                     None \<Rightarrow> (kPmLogErr_Other 13, None, s)
                   | Some h \<Rightarrow> (kPmLogErr_None, Some h, s)),
       PmLogGetContext =
         (\<lambda>name s. case fake_find name s of
                     None \<Rightarrow> (kPmLogErr_None, Some (length s), s @ [(name, 5)])
                   | Some h \<Rightarrow> (kPmLogErr_None, Some h, s)),
       PmLogSetContextLevel =
         (\<lambda>c level s. case c of
                        None \<Rightarrow> (kPmLogErr_Other 3, s)
                      | Some h \<Rightarrow>
                          if h < length s \<and> - 1 \<le> level \<and> level \<le> 7
                            then (kPmLogErr_None, s[h := (fst (s ! h), level)])
                          else (kPmLogErr_Other 4, s)),
       PmLogPrint_raw = (\<lambda>c level fmt args s. (kPmLogErr_None, s)),
       PmLogPrint = (\<lambda>c level fmt args s. (kPmLogErr_None, s)),
       PmLogStringToLevel = map_of fake_levels,
       PmLogLevelToString = map_of (map (\<lambda>(name, level). (level, name)) fake_levels),
       PmLogGetErrDbgString = (\<lambda>e. ''error''),
       enabledLevel = (\<lambda>s h. snd (s ! h)),
       kPmLogGlobalContext = Some 0,
       kPmLogLevel_Notice = 5,
       kPmLogLevel_Emergency = 0,
       PMLOG_MAX_NUM_CONTEXTS = 32 \<rparr>"


definition world0 :: "'s \<Rightarrow> ('s, nat) world" where
  "world0 s =
     \<lparr>lib_state = s, calls = [], stdout = [], fopen_err = None, fprintf_err = None,
       fclose_err = None, kmsg = []\<rparr>"

text \<open>A registry with the global context and three more.\<close>

definition registry0 :: "(string \<times> int) list" where
  "registry0 = [(''<global>'', 5), (''wifi'', 3), (''Audio'', 6), (''audit'', 4)]"

subsection \<open>Observing the calls of a run\<close>

fun is_query :: "'h libcall \<Rightarrow> bool" where
  "is_query Call_GetNumContexts = True"
| "is_query (Call_GetIndContext i) = True"
| "is_query (Call_GetContextName c) = True"
| "is_query _ = False"

text \<open>From \<open>w\<close> to \<open>w'\<close> the program made only calls of the kind \<open>P\<close> into the library and
  did not touch the kernel message device.\<close>

definition only_calls ::
  "('h libcall \<Rightarrow> bool) \<Rightarrow> ('s, 'h) world \<Rightarrow> ('s, 'h) world \<Rightarrow> bool" where
  "only_calls P w w' =
     ((\<exists>cs. calls w' = calls w @ cs \<and> list_all (\<lambda>c. P (fst c)) cs) \<and>
      kmsg w' = kmsg w \<and> fopen_err w' = fopen_err w \<and> fprintf_err w' = fprintf_err w \<and>
      fclose_err w' = fclose_err w)"

text \<open>The three entry points that enumerate the contexts leave the library's state as it
  is.\<close>

definition queries_read_only :: "('s, 'h) PmLogLib \<Rightarrow> bool" where
  "queries_read_only L =
     ((\<forall>s. snd (snd (PmLogGetNumContexts L s)) = s) \<and>
      (\<forall>i s. snd (snd (PmLogGetIndContext L i s)) = s) \<and>
      (\<forall>c s. snd (snd (PmLogGetContextName L c s)) = s))"

text \<open>
  What a stretch of the enumeration loop does between two of its states: only enumerating
  calls, nothing printed, the library's state kept when the enumerating entry points are
  read-only, and the array extended by entries whose names match the pattern.
\<close>

definition loop_effect ::
  "('s, 'h) PmLogLib \<Rightarrow> string option \<Rightarrow> 'h ContextInfo_t list \<Rightarrow> ('s, 'h) world
     \<Rightarrow> 'h ContextInfo_t list \<Rightarrow> ('s, 'h) world \<Rightarrow> bool" where
  "loop_effect L pat infos w infos' w' =
     (only_calls is_query w w' \<and> stdout w' = stdout w \<and>
      (queries_read_only L \<longrightarrow> lib_state w' = lib_state w) \<and>
      (\<exists>new. infos' = infos @ new \<and>
         list_all (\<lambda>ci. PrvMatchContextName (contextName ci) pat = Some True) new))"

text \<open>The contexts of \<open>registry0\<close> in the order of \<^verbatim>\<open>strcasecmp\<close> on their names.\<close>

definition registry0_by_name :: "nat ContextInfo_t list" where
  "registry0_by_name =
     [\<lparr>context = Some 0, contextName = ''<global>''\<rparr>,
      \<lparr>context = Some 2, contextName = ''Audio''\<rparr>,
      \<lparr>context = Some 3, contextName = ''audit''\<rparr>,
      \<lparr>context = Some 1, contextName = ''wifi''\<rparr>]"

text \<open>The command \<^verbatim>\<open>view\<close> is not in \<^verbatim>\<open>PmLogCtl.c\<close>. Where a closed term is needed for it,
  \<open>DoCmdView_none\<close> gives no result.\<close>

definition DoCmdView_none ::
  "string list \<Rightarrow> ('s, 'h) world \<Rightarrow> (Result \<times> ('s, 'h) world) option" where
  "DoCmdView_none argv w = None"

text \<open>From \<open>w\<close> to \<open>w'\<close> the program made no call into the library, and the state of the
  library and the kernel message device are as they were.\<close>

definition no_call :: "('s, 'h) world \<Rightarrow> ('s, 'h) world \<Rightarrow> bool" where
  "no_call w w' = (calls w' = calls w \<and> lib_state w' = lib_state w \<and> kmsg w' = kmsg w)"


text \<open>The arguments of \<^verbatim>\<open>klog\<close> that give levels: each level token after a \<^verbatim>\<open>-p\<close>. The
  level in force after them is that of the last token, and the default when there is none.\<close>

definition klog_options :: "string list \<Rightarrow> string list" where
  "klog_options tokens = concat (map (\<lambda>token. [''-p'', token]) tokens)"

definition klog_level :: "('s, 'h) PmLogLib \<Rightarrow> string list \<Rightarrow> int \<Rightarrow> int option" where
  "klog_level L tokens default_level =
     (if tokens = [] then Some default_level else PmLogStringToLevel L (last tokens))"

section \<open>Properties\<close>

subsection \<open>Strings and name matching\<close>

lemma of_char_eq_0_iff: "(of_char c :: int) = 0 \<longleftrightarrow> c = NUL"
proof -
  have "(of_char NUL :: int) = 0" by (simp add: NUL_def)
  then show ?thesis by (metis of_char_eq_iff)
qed

lemma strcmp_eq_0_iff: "cstring a \<Longrightarrow> cstring b \<Longrightarrow> strcmp a b = 0 \<longleftrightarrow> a = b"
  by (induction a b rule: strcmp.induct) (auto simp: cstring_def of_char_eq_0_iff)

lemma strchr_None_iff: "strchr s c = None \<longleftrightarrow> c \<notin> set s"
  by (induction s) auto

lemma strchr_append: "c \<notin> set pre \<Longrightarrow> strchr (pre @ c # rest) c = Some (length pre)"
  by (induction pre) auto

lemma memcmp_prefix:
  "NUL \<notin> set pre \<Longrightarrow>
   memcmp (s @ [NUL]) (pre @ rest) (length pre) = Some d \<Longrightarrow> (d = 0) = prefix pre s"
proof (induction pre arbitrary: s)
  case Nil
  then show ?case by simp
next
  case (Cons x pre)
  show ?case
  proof (cases s)
    case Nil
    with Cons.prems show ?thesis by (auto simp: of_char_eq_0_iff split: if_splits)
  next
    case (Cons y s')
    with Cons.prems Cons.IH[of s'] show ?thesis by (auto split: if_splits)
  qed
qed

lemma memcmp_defined:
  "NUL \<notin> set pre \<Longrightarrow> \<exists>d. memcmp (s @ [NUL]) (pre @ rest) (length pre) = Some d"
proof (induction pre arbitrary: s)
  case Nil
  then show ?case by simp
next
  case (Cons x pre)
  show ?case
  proof (cases s)
    case Nil
    with Cons.prems show ?thesis by auto
  next
    case (Cons y s')
    with Cons.prems Cons.IH[of s'] show ?thesis by auto
  qed
qed

lemma PrvMatchContextName_wild:
  assumes "cstring pre" "CHR ''*'' \<notin> set pre"
  shows "PrvMatchContextName s (Some (pre @ CHR ''*'' # rest)) = Some (prefix pre s)"
proof (cases "pre = []")
  case True
  then show ?thesis by (simp add: PrvMatchContextName_def)
next
  case False
  from assms(1) have n: "NUL \<notin> set pre" by (simp add: cstring_def)
  from memcmp_defined[OF n] obtain d where
    d: "memcmp (s @ [NUL]) (pre @ (CHR ''*'' # rest @ [NUL])) (length pre) = Some d" by blast
  from memcmp_prefix[OF n d] have "(d = 0) = prefix pre s" .
  with d False assms(2) show ?thesis
    by (simp add: PrvMatchContextName_def strchr_append bytes_def)
qed

text \<open>
  Claim C1. For C strings \<open>s\<close> and \<open>p\<close>: an absent pattern matches every name; a pattern
  \<open>p\<close> without \<^verbatim>\<open>*\<close> matches \<open>s\<close> exactly when \<open>s = p\<close> (case-sensitive); a pattern with
  a \<^verbatim>\<open>*\<close>, whose part before the first \<^verbatim>\<open>*\<close> is \<open>p\<close>, matches exactly when \<open>s\<close> starts with
  \<open>p\<close>, whatever follows the \<^verbatim>\<open>*\<close>; and with nothing before the \<^verbatim>\<open>*\<close> every name matches.
\<close>

theorem PrvMatchContextName_spec:
  assumes "cstring s" and "cstring p" and "CHR ''*'' \<notin> set p"
  shows "PrvMatchContextName s None = Some True \<and>
         PrvMatchContextName s (Some p) = Some (s = p) \<and>
         PrvMatchContextName s (Some (p @ CHR ''*'' # rest)) = Some (prefix p s) \<and>
         PrvMatchContextName s (Some (CHR ''*'' # rest)) = Some True"
proof -
  have "strchr p (CHR ''*'') = None" using assms(3) by (simp add: strchr_None_iff)
  then have "PrvMatchContextName s (Some p) = Some (s = p)"
    using assms(1,2) by (simp add: PrvMatchContextName_def strcmp_eq_0_iff)
  moreover have "PrvMatchContextName s (Some (p @ CHR ''*'' # rest)) = Some (prefix p s)"
    using assms(2,3) by (rule PrvMatchContextName_wild)
  moreover have "PrvMatchContextName s None = Some True"
    by (simp add: PrvMatchContextName_def)
  moreover have "PrvMatchContextName s (Some (CHR ''*'' # rest)) = Some True"
    by (simp add: PrvMatchContextName_def)
  ultimately show ?thesis by simp
qed

theorem PrvMatchContextName_spec_witness:
  "cstring ''audit'' \<and> cstring ''aud'' \<and> CHR ''*'' \<notin> set ''aud'' \<and>
   PrvMatchContextName ''audit'' None = Some True \<and>
   PrvMatchContextName ''audit'' (Some ''aud'') = Some False \<and>
   PrvMatchContextName ''audit'' (Some ''aud*io'') = Some True \<and>
   PrvMatchContextName ''audit'' (Some ''*io'') = Some True"
  using PrvMatchContextName_spec [of "''audit''" "''aud''" "''io''"]
  by (simp add: cstring_def NUL_def)

text \<open>
  Claim C10. Alias resolution maps \<^verbatim>\<open>.\<close> to the name of the global context, leaves every
  other C string as it is, and resolving twice gives the same as resolving once.
\<close>

theorem PrvResolveContextNameAlias_idem:
  assumes "cstring s"
  shows "PrvResolveContextNameAlias ''.'' = kPmLogGlobalContextName \<and>
         (s \<noteq> ''.'' \<longrightarrow> PrvResolveContextNameAlias s = s) \<and>
         PrvResolveContextNameAlias (PrvResolveContextNameAlias s) = PrvResolveContextNameAlias s"
proof -
  have "cstring ''.''" by (simp add: cstring_def NUL_def)
  with assms have "strcmp s ''.'' = 0 \<longleftrightarrow> s = ''.''" by (rule strcmp_eq_0_iff)
  then show ?thesis
    by (simp add: PrvResolveContextNameAlias_def kPmLogGlobalContextName_def)
qed

theorem PrvResolveContextNameAlias_idem_witness:
  "cstring ''wifi'' \<and> PrvResolveContextNameAlias ''.'' = ''<global>'' \<and>
   PrvResolveContextNameAlias ''wifi'' = ''wifi'' \<and>
   PrvResolveContextNameAlias (PrvResolveContextNameAlias ''.'') = ''<global>''"
  using PrvResolveContextNameAlias_idem [of "''wifi''"]
  by (simp add: cstring_def NUL_def PrvResolveContextNameAlias_def kPmLogGlobalContextName_def)

subsection \<open>The calls of the enumeration\<close>

declare PrvGetContextList_loop.simps [simp del]

lemma only_calls_refl: "only_calls P w w"
  by (simp add: only_calls_def)

lemma only_calls_trans: "only_calls P w w1 \<Longrightarrow> only_calls P w1 w2 \<Longrightarrow> only_calls P w w2"
  by (auto simp: only_calls_def)

lemma only_calls_printf_right: "only_calls P w w1 \<Longrightarrow> only_calls P w (printf fmt args w1)"
  by (simp add: only_calls_def printf_def)

lemma only_calls_GetNumContexts:
  "call_GetNumContexts L w = (e, n, w') \<Longrightarrow> P Call_GetNumContexts \<Longrightarrow> only_calls P w w'"
  by (auto simp: call_GetNumContexts_def only_calls_def split: prod.splits)

lemma only_calls_GetIndContext:
  "call_GetIndContext L i w = (e, c, w') \<Longrightarrow> P (Call_GetIndContext i) \<Longrightarrow> only_calls P w w'"
  by (auto simp: call_GetIndContext_def only_calls_def split: prod.splits)

lemma only_calls_GetContextName:
  "call_GetContextName L c w = (e, name, w') \<Longrightarrow> P (Call_GetContextName c) \<Longrightarrow> only_calls P w w'"
  by (auto simp: call_GetContextName_def only_calls_def split: prod.splits)


lemma loop_effect_refl: "loop_effect L pat infos w infos w"
  by (simp add: loop_effect_def only_calls_refl)

lemma loop_effect_trans:
  "loop_effect L pat a w b w1 \<Longrightarrow> loop_effect L pat b w1 c w2 \<Longrightarrow> loop_effect L pat a w c w2"
  unfolding loop_effect_def using only_calls_trans by fastforce

lemma loop_effect_GetIndContext:
  "call_GetIndContext L i w = (e, c, w') \<Longrightarrow> loop_effect L pat infos w infos w'"
  unfolding loop_effect_def
  by (auto simp: only_calls_GetIndContext call_GetIndContext_def queries_read_only_def
      split: prod.splits) (metis snd_conv)

lemma loop_effect_GetContextName:
  "call_GetContextName L c w = (e, name, w') \<Longrightarrow> loop_effect L pat infos w infos w'"
  unfolding loop_effect_def
  by (auto simp: only_calls_GetContextName call_GetContextName_def queries_read_only_def
      split: prod.splits) (metis snd_conv)

lemma loop_effect_append:
  "PrvMatchContextName (contextName ci) pat = Some True \<Longrightarrow>
   loop_effect L pat infos w (infos @ [ci]) w"
  by (simp add: loop_effect_def only_calls_refl)

lemma PrvGetContextList_loop_effect:
  "PrvGetContextList_loop L pat i n infos w = Some (e, infos', w') \<Longrightarrow>
   loop_effect L pat infos w infos' w'"
proof (induction L pat i n infos w rule: PrvGetContextList_loop.induct)
  case (1 L pat i n infos w)
  show ?case
  proof (cases "i < n \<and> \<not> PMLOG_MAX_NUM_CONTEXTS L + 1 \<le> length infos")
    case False
    with "1.prems" show ?thesis
      by (subst (asm) PrvGetContextList_loop.simps) (auto simp: loop_effect_refl split: if_splits)
  next
    case True
    obtain e1 c w1 where g1: "call_GetIndContext L i w = (e1, c, w1)"
      by (cases "call_GetIndContext L i w") auto
    obtain e2 name w2 where g2: "call_GetContextName L c w1 = (e2, name, w2)"
      by (cases "call_GetContextName L c w1") auto
    have s1: "loop_effect L pat infos w infos w1" using g1 by (rule loop_effect_GetIndContext)
    have s2: "loop_effect L pat infos w1 infos w2" using g2 by (rule loop_effect_GetContextName)
    have s12: "loop_effect L pat infos w infos w2" using s1 s2 by (rule loop_effect_trans)
    show ?thesis
    proof (cases "e1 = kPmLogErr_None \<and> e2 = kPmLogErr_None")
      case False
      with "1.prems" True g1 g2 s1 s12 show ?thesis
        by (subst (asm) PrvGetContextList_loop.simps) (auto split: if_splits)
    next
      case ok: True
      show ?thesis
      proof (cases "PrvMatchContextName name pat")
        case None
        with "1.prems" True g1 g2 ok show ?thesis
          by (subst (asm) PrvGetContextList_loop.simps) auto
      next
        case (Some m)
        show ?thesis
        proof (cases m)
          case False
          with "1.prems" True g1 g2 ok Some
          have "PrvGetContextList_loop L pat (i + 1) n infos w2 = Some (e, infos', w')"
            by (subst (asm) PrvGetContextList_loop.simps) auto
          with "1.IH"(1)[of e1 "(c, w1)" c w1 e2 "(name, w2)" name w2 m]
            True g1 g2 ok Some False
          have "loop_effect L pat infos w2 infos' w'" by auto
          with s12 show ?thesis by (rule loop_effect_trans)
        next
          case m: True
          let ?ci = "\<lparr>context = c, contextName = name\<rparr>"
          from "1.prems" True g1 g2 ok Some m
          have "PrvGetContextList_loop L pat (i + 1) n (infos @ [?ci]) w2 = Some (e, infos', w')"
            by (subst (asm) PrvGetContextList_loop.simps) auto
          with "1.IH"(2)[of e1 "(c, w1)" c w1 e2 "(name, w2)" name w2 m]
            True g1 g2 ok Some m
          have r: "loop_effect L pat (infos @ [?ci]) w2 infos' w'" by auto
          have "loop_effect L pat infos w2 (infos @ [?ci]) w2"
            using Some m by (intro loop_effect_append) simp
          then have "loop_effect L pat infos w2 infos' w'" using r by (rule loop_effect_trans)
          with s12 show ?thesis by (rule loop_effect_trans)
        qed
      qed
    qed
  qed
qed

subsection \<open>Sorting by name\<close>

lemma of_char_int_nonneg: "0 \<le> (of_char c :: int)"
proof -
  have "(of_char c :: int) = of_nat (of_char c)" by (simp add: of_nat_of_char)
  then show ?thesis by simp
qed

lemma tolower_eq_NUL_iff: "tolower c = NUL \<longleftrightarrow> c = NUL"
proof (cases "(65::nat) \<le> of_char c \<and> of_char c \<le> (90::nat)")
  case False
  then show ?thesis by (auto simp: tolower_def)
next
  case True
  have "char_of (of_char c + (32::nat)) \<noteq> NUL"
  proof
    assume "char_of (of_char c + (32::nat)) = NUL"
    then have "(of_char (char_of (of_char c + (32::nat))) :: nat) = of_char NUL" by simp
    with True show False by (simp add: NUL_def)
  qed
  moreover from True have "c \<noteq> NUL" by (auto simp: NUL_def)
  ultimately show ?thesis using True by (simp add: tolower_def)
qed

lemma strcasecmp_total: "strcasecmp a b \<le> 0 \<or> strcasecmp b a \<le> 0"
  by (induction a b rule: strcasecmp.induct) (auto simp: of_char_int_nonneg)

lemma strcasecmp_Nil_le: "strcasecmp [] c \<le> 0"
  by (cases c) (auto simp: of_char_int_nonneg)

lemma strcasecmp_Cons_Nil: "cstring (x # xs) \<Longrightarrow> \<not> strcasecmp (x # xs) [] \<le> 0"
proof -
  assume "cstring (x # xs)"
  then have "tolower x \<noteq> NUL" by (simp add: cstring_def tolower_eq_NUL_iff) blast
  then have "(of_char (tolower x) :: int) \<noteq> 0" by (simp add: of_char_eq_0_iff)
  with of_char_int_nonneg[of "tolower x"] show ?thesis by simp
qed

lemma strcasecmp_trans:
  "cstring a \<Longrightarrow> cstring b \<Longrightarrow> cstring c \<Longrightarrow>
   strcasecmp a b \<le> 0 \<Longrightarrow> strcasecmp b c \<le> 0 \<Longrightarrow> strcasecmp a c \<le> 0"
proof (induction a b arbitrary: c rule: strcasecmp.induct)
  case 1
  then show ?case by simp
next
  case (2 y ys)
  show ?case by (rule strcasecmp_Nil_le)
next
  case (3 x xs)
  then show ?case using strcasecmp_Cons_Nil by blast
next
  case (4 x xs y ys)
  show ?case
  proof (cases c)
    case Nil
    with "4.prems" show ?thesis using strcasecmp_Cons_Nil by blast
  next
    case (Cons z zs)
    have cs: "cstring xs" "cstring ys" "cstring zs"
      using "4.prems"(1,2,3) Cons by (auto simp: cstring_def)
    show ?thesis
    proof (cases "tolower x = tolower y \<and> tolower y = tolower z")
      case True
      with "4.prems"(4,5) Cons have "strcasecmp xs ys \<le> 0" "strcasecmp ys zs \<le> 0" by auto
      with "4.IH"[OF _ cs] True have "strcasecmp xs zs \<le> 0" by simp
      with True Cons show ?thesis by simp
    next
      case False
      with "4.prems"(4,5) Cons show ?thesis by (auto split: if_splits)
    qed
  qed
qed

lemma set_qsort_insert: "set (qsort_insert cmp x ys) = insert x (set ys)"
  by (induction ys) auto

lemma set_qsort: "set (qsort cmp xs) = set xs"
  by (induction xs) (auto simp: set_qsort_insert)

lemma sorted_wrt_qsort_insert:
  assumes tot: "\<And>a b. P a \<Longrightarrow> P b \<Longrightarrow> cmp a b \<le> 0 \<or> cmp b a \<le> 0"
    and tr: "\<And>a b c. P a \<Longrightarrow> P b \<Longrightarrow> P c \<Longrightarrow> cmp a b \<le> 0 \<Longrightarrow> cmp b c \<le> 0 \<Longrightarrow> cmp a c \<le> 0"
  shows "P x \<Longrightarrow> list_all P ys \<Longrightarrow> sorted_wrt (\<lambda>a b. cmp a b \<le> 0) ys \<Longrightarrow>
         sorted_wrt (\<lambda>a b. cmp a b \<le> 0) (qsort_insert cmp x ys)"
proof (induction ys)
  case Nil
  then show ?case by simp
next
  case (Cons y ys)
  show ?case
  proof (cases "cmp x y \<le> 0")
    case True
    have "cmp x z \<le> 0" if "z \<in> set ys" for z
    proof -
      from that Cons.prems have "cmp y z \<le> 0" "P z" by (auto simp: list_all_iff)
      with tr[of x y z] True Cons.prems show ?thesis by simp
    qed
    with True Cons.prems show ?thesis by auto
  next
    case False
    with tot[of x y] Cons.prems have "cmp y x \<le> 0" by auto
    with False Cons show ?thesis by (auto simp: set_qsort_insert)
  qed
qed

lemma sorted_wrt_qsort:
  assumes tot: "\<And>a b. P a \<Longrightarrow> P b \<Longrightarrow> cmp a b \<le> 0 \<or> cmp b a \<le> 0"
    and tr: "\<And>a b c. P a \<Longrightarrow> P b \<Longrightarrow> P c \<Longrightarrow> cmp a b \<le> 0 \<Longrightarrow> cmp b c \<le> 0 \<Longrightarrow> cmp a c \<le> 0"
  shows "list_all P xs \<Longrightarrow> sorted_wrt (\<lambda>a b. cmp a b \<le> 0) (qsort cmp xs)"
proof (induction xs)
  case Nil
  then show ?case by simp
next
  case (Cons x xs)
  then have "sorted_wrt (\<lambda>a b. cmp a b \<le> 0) (qsort cmp xs)" by simp
  moreover have "list_all P (qsort cmp xs)" using Cons.prems by (simp add: list_all_iff set_qsort)
  ultimately show ?case
    using sorted_wrt_qsort_insert[of P cmp x "qsort cmp xs", OF tot tr] Cons.prems by simp
qed

lemma sorted_by_name:
  assumes "list_all (\<lambda>ci. cstring (contextName ci)) xs"
  shows "sorted_wrt (\<lambda>a b. SortCmpContextInfoByName a b \<le> 0) (qsort SortCmpContextInfoByName xs)"
proof (rule sorted_wrt_qsort[where P = "\<lambda>ci. cstring (contextName ci)"])
  show "SortCmpContextInfoByName a b \<le> 0 \<or> SortCmpContextInfoByName b a \<le> 0" for a b :: "'a ContextInfo_t"
    unfolding SortCmpContextInfoByName_def by (rule strcasecmp_total)
  show "SortCmpContextInfoByName a c \<le> 0"
    if "cstring (contextName a)" "cstring (contextName b)" "cstring (contextName c)"
      "SortCmpContextInfoByName a b \<le> 0" "SortCmpContextInfoByName b c \<le> 0"
    for a b c :: "'a ContextInfo_t"
    using that unfolding SortCmpContextInfoByName_def by (rule strcasecmp_trans)
  show "list_all (\<lambda>ci. cstring (contextName ci)) xs" by (rule assms)
qed

subsection \<open>The result of the enumeration\<close>

lemma loop_effect_GetNumContexts:
  "call_GetNumContexts L w = (e, n, w') \<Longrightarrow> loop_effect L pat infos w infos w'"
  unfolding loop_effect_def
  by (auto simp: only_calls_GetNumContexts call_GetNumContexts_def queries_read_only_def
      split: prod.splits) (metis snd_conv)

lemma loop_effect_qsort:
  "loop_effect L pat [] w infos w' \<Longrightarrow> loop_effect L pat [] w (qsort cmp infos) w'"
  by (simp add: loop_effect_def list_all_iff set_qsort)

lemma PrvGetContextList_effect:
  assumes "PrvGetContextList L pat w = Some (e, infos, w')"
  shows "loop_effect L pat [] w infos w'"
proof -
  obtain e0 n w1 where g: "call_GetNumContexts L w = (e0, n, w1)"
    by (cases "call_GetNumContexts L w") auto
  have s1: "loop_effect L pat [] w [] w1" using g by (rule loop_effect_GetNumContexts)
  show ?thesis
  proof (cases "e0 = kPmLogErr_None \<and> 0 < n")
    case False
    with assms g s1 show ?thesis by (auto simp: PrvGetContextList_def split: if_splits)
  next
    case True
    with assms g obtain e1 acc w2 where
      l: "PrvGetContextList_loop L pat 0 n [] w1 = Some (e1, acc, w2)"
      by (auto simp: PrvGetContextList_def split: option.splits)
    then have "loop_effect L pat [] w1 acc w2" by (rule PrvGetContextList_loop_effect)
    with s1 have s2: "loop_effect L pat [] w acc w2" by (rule loop_effect_trans)
    then have "loop_effect L pat [] w (qsort SortCmpContextInfoByName acc) w2"
      by (rule loop_effect_qsort)
    with assms g True l s2 show ?thesis
      by (auto simp: PrvGetContextList_def split: if_splits)
  qed
qed

lemma sorted_after_enumeration:
  assumes "PrvGetContextList L pat w = Some (kPmLogErr_None, infos, w')"
    and "list_all (\<lambda>ci. cstring (contextName ci)) infos"
  shows "sorted_wrt (\<lambda>a b. SortCmpContextInfoByName a b \<le> 0) infos"
proof -
  obtain e0 n w1 where g: "call_GetNumContexts L w = (e0, n, w1)"
    by (cases "call_GetNumContexts L w") auto
  from assms(1) g have ok: "e0 = kPmLogErr_None" "0 < n"
    by (auto simp: PrvGetContextList_def split: if_splits)
  with assms(1) g obtain e1 acc w2 where
    l: "PrvGetContextList_loop L pat 0 n [] w1 = Some (e1, acc, w2)"
    by (auto simp: PrvGetContextList_def split: option.splits)
  show ?thesis
  proof (cases "acc = []")
    case True
    with assms(1) g ok l show ?thesis by (auto simp: PrvGetContextList_def split: if_splits)
  next
    case False
    with assms(1) g ok l have i: "infos = qsort SortCmpContextInfoByName acc"
      by (auto simp: PrvGetContextList_def split: if_splits)
    with assms(2) have "list_all (\<lambda>ci. cstring (contextName ci)) acc"
      by (simp add: list_all_iff set_qsort)
    then show ?thesis unfolding i by (rule sorted_by_name)
  qed
qed

text \<open>The enumeration reads nothing of the world but the state of the library: run from two
  worlds with the same library state, it gives the same error code, the same entries and
  the same library state.\<close>

lemma call_GetIndContext_same:
  "lib_state v = lib_state w \<Longrightarrow> call_GetIndContext L i w = (e, c, w1) \<Longrightarrow>
   \<exists>v1. call_GetIndContext L i v = (e, c, v1) \<and> lib_state v1 = lib_state w1"
  by (auto simp: call_GetIndContext_def split: prod.splits)

lemma call_GetContextName_same:
  "lib_state v = lib_state w \<Longrightarrow> call_GetContextName L c w = (e, name, w1) \<Longrightarrow>
   \<exists>v1. call_GetContextName L c v = (e, name, v1) \<and> lib_state v1 = lib_state w1"
  by (auto simp: call_GetContextName_def split: prod.splits)

lemma call_GetNumContexts_same:
  "lib_state v = lib_state w \<Longrightarrow> call_GetNumContexts L w = (e, n, w1) \<Longrightarrow>
   \<exists>v1. call_GetNumContexts L v = (e, n, v1) \<and> lib_state v1 = lib_state w1"
  by (auto simp: call_GetNumContexts_def split: prod.splits)

lemma PrvGetContextList_loop_same:
  "lib_state v = lib_state w \<Longrightarrow>
   map_option (\<lambda>(e, infos', w'). (e, infos', lib_state w')) (PrvGetContextList_loop L pat i n infos v) =
   map_option (\<lambda>(e, infos', w'). (e, infos', lib_state w')) (PrvGetContextList_loop L pat i n infos w)"
proof (induction L pat i n infos w arbitrary: v rule: PrvGetContextList_loop.induct)
  case (1 L pat i n infos w)
  show ?case
  proof (cases "i < n \<and> \<not> PMLOG_MAX_NUM_CONTEXTS L + 1 \<le> length infos")
    case False
    with "1.prems" show ?thesis
      by (subst PrvGetContextList_loop.simps, subst (2) PrvGetContextList_loop.simps) auto
  next
    case True
    obtain e1 c w1 where g1: "call_GetIndContext L i w = (e1, c, w1)"
      by (cases "call_GetIndContext L i w") auto
    from call_GetIndContext_same[OF "1.prems" g1] obtain v1 where
      h1: "call_GetIndContext L i v = (e1, c, v1)" "lib_state v1 = lib_state w1" by blast
    obtain e2 name w2 where g2: "call_GetContextName L c w1 = (e2, name, w2)"
      by (cases "call_GetContextName L c w1") auto
    from call_GetContextName_same[OF h1(2) g2] obtain v2 where
      h2: "call_GetContextName L c v1 = (e2, name, v2)" "lib_state v2 = lib_state w2" by blast
    show ?thesis
    proof (cases "e1 = kPmLogErr_None \<and> e2 = kPmLogErr_None")
      case False
      with True g1 g2 h1 h2 show ?thesis
        by (subst PrvGetContextList_loop.simps, subst (2) PrvGetContextList_loop.simps) auto
    next
      case ok: True
      show ?thesis
      proof (cases "PrvMatchContextName name pat")
        case None
        with True g1 g2 h1 h2 ok show ?thesis
          by (subst PrvGetContextList_loop.simps, subst (2) PrvGetContextList_loop.simps) auto
      next
        case (Some m)
        show ?thesis
        proof (cases m)
          case False
          from "1.IH"(1)[of e1 "(c, w1)" c w1 e2 "(name, w2)" name w2 m v2]
            True g1 g2 ok Some False h2(2)
          have "map_option (\<lambda>(e, infos', w'). (e, infos', lib_state w'))
                  (PrvGetContextList_loop L pat (i + 1) n infos v2) =
                map_option (\<lambda>(e, infos', w'). (e, infos', lib_state w'))
                  (PrvGetContextList_loop L pat (i + 1) n infos w2)" by auto
          with True g1 g2 h1 h2 ok Some False show ?thesis
            by (subst PrvGetContextList_loop.simps, subst (2) PrvGetContextList_loop.simps) auto
        next
          case m: True
          let ?ci = "\<lparr>context = c, contextName = name\<rparr>"
          from "1.IH"(2)[of e1 "(c, w1)" c w1 e2 "(name, w2)" name w2 m v2]
            True g1 g2 ok Some m h2(2)
          have "map_option (\<lambda>(e, infos', w'). (e, infos', lib_state w'))
                  (PrvGetContextList_loop L pat (i + 1) n (infos @ [?ci]) v2) =
                map_option (\<lambda>(e, infos', w'). (e, infos', lib_state w'))
                  (PrvGetContextList_loop L pat (i + 1) n (infos @ [?ci]) w2)" by auto
          with True g1 g2 h1 h2 ok Some m show ?thesis
            by (subst PrvGetContextList_loop.simps, subst (2) PrvGetContextList_loop.simps) auto
        qed
      qed
    qed
  qed
qed

lemma PrvGetContextList_same:
  assumes "lib_state v = lib_state w"
  shows "map_option (\<lambda>(e, infos, w'). (e, infos, lib_state w')) (PrvGetContextList L pat v) =
         map_option (\<lambda>(e, infos, w'). (e, infos, lib_state w')) (PrvGetContextList L pat w)"
proof -
  obtain e0 n w1 where g: "call_GetNumContexts L w = (e0, n, w1)"
    by (cases "call_GetNumContexts L w") auto
  from call_GetNumContexts_same[OF assms g] obtain v1 where
    h: "call_GetNumContexts L v = (e0, n, v1)" "lib_state v1 = lib_state w1" by blast
  from PrvGetContextList_loop_same[OF h(2), of L pat 0 n "[]"]
  have "map_option (\<lambda>(e, infos', w'). (e, infos', lib_state w'))
          (PrvGetContextList_loop L pat 0 n [] v1) =
        map_option (\<lambda>(e, infos', w'). (e, infos', lib_state w'))
          (PrvGetContextList_loop L pat 0 n [] w1)" .
  with g h show ?thesis
    by (cases "PrvGetContextList_loop L pat 0 n [] v1";
        cases "PrvGetContextList_loop L pat 0 n [] w1")
       (auto simp: PrvGetContextList_def)
qed

text \<open>
  Claim C9. When the enumeration succeeds and the names it read are C strings, the list it
  hands out is in ascending order of \<^verbatim>\<open>strcasecmp\<close> on the names (the comparison ignores
  case), every entry matches the pattern, and the list depends on the state of the library
  only: from any world with the same library state the same list comes out.
\<close>

theorem PrvGetContextList_sorted:
  assumes "PrvGetContextList L pat w = Some (kPmLogErr_None, infos, w')"
    and "list_all (\<lambda>ci. cstring (contextName ci)) infos"
  shows "sorted_wrt (\<lambda>a b. strcasecmp (contextName a) (contextName b) \<le> 0) infos \<and>
         list_all (\<lambda>ci. PrvMatchContextName (contextName ci) pat = Some True) infos \<and>
         (\<forall>v. lib_state v = lib_state w \<longrightarrow>
              map_option (\<lambda>(e, infos, w'). (e, infos)) (PrvGetContextList L pat v) =
              Some (kPmLogErr_None, infos))"
proof -
  have "sorted_wrt (\<lambda>a b. SortCmpContextInfoByName a b \<le> 0) infos"
    using assms by (rule sorted_after_enumeration)
  then have "sorted_wrt (\<lambda>a b. strcasecmp (contextName a) (contextName b) \<le> 0) infos"
    by (simp add: SortCmpContextInfoByName_def)
  moreover have "list_all (\<lambda>ci. PrvMatchContextName (contextName ci) pat = Some True) infos"
    using PrvGetContextList_effect[OF assms(1)] by (simp add: loop_effect_def)
  moreover have "map_option (\<lambda>(e, infos, w'). (e, infos)) (PrvGetContextList L pat v) =
                 Some (kPmLogErr_None, infos)" if "lib_state v = lib_state w" for v
  proof -
    from PrvGetContextList_same[OF that, of L pat] assms(1)
    show ?thesis by (cases "PrvGetContextList L pat v") auto
  qed
  ultimately show ?thesis by blast
qed

text \<open>The enumeration of \<open>registry0\<close> with no pattern.\<close>

theorem PrvGetContextList_sorted_witness:
  "map_option (\<lambda>(e, infos, w'). (e, infos)) (PrvGetContextList fakeLib None (world0 registry0)) =
     Some (kPmLogErr_None, registry0_by_name) \<and>
   list_all (\<lambda>ci. cstring (contextName ci)) registry0_by_name \<and>
   sorted_wrt (\<lambda>a b. strcasecmp (contextName a) (contextName b) \<le> 0) registry0_by_name \<and>
   list_all (\<lambda>ci. PrvMatchContextName (contextName ci) None = Some True) registry0_by_name \<and>
   map_option (\<lambda>(e, infos, w'). (e, infos))
     (PrvGetContextList fakeLib None (printf ''x'' [] (world0 registry0))) =
     Some (kPmLogErr_None, registry0_by_name)"
proof -
  have e: "map_option (\<lambda>(e, infos, w'). (e, infos))
             (PrvGetContextList fakeLib None (world0 registry0)) =
           Some (kPmLogErr_None, registry0_by_name)"
    by code_simp
  then obtain w' where r: "PrvGetContextList fakeLib None (world0 registry0) =
      Some (kPmLogErr_None, registry0_by_name, w')"
    by (cases "PrvGetContextList fakeLib None (world0 registry0)") auto
  have c: "list_all (\<lambda>ci. cstring (contextName ci)) registry0_by_name"
    by code_simp
  have v: "lib_state (printf ''x'' [] (world0 registry0)) = lib_state (world0 registry0)"
    by (simp add: printf_def)
  from PrvGetContextList_sorted[OF r c] v e c show ?thesis by blast
qed

subsection \<open>The exit status\<close>

text \<open>
  Claim C2, as the program has it. The exit status is \<open>EXIT_SUCCESS\<close> exactly when the
  outcome is \<open>RESULT_OK\<close>; the outcomes help-shown, parameter error and run error all give
  \<open>EXIT_FAILURE\<close>.
\<close>

theorem main_exit_status:
  "(map_option fst (main L V argv w) = Some EXIT_SUCCESS \<longleftrightarrow>
      map_option fst (main_result L V argv w) = Some RESULT_OK) \<and>
   (map_option fst (main_result L V argv w) \<in>
        {Some RESULT_HELP, Some RESULT_PARAM_ERR, Some RESULT_RUN_ERR} \<longrightarrow>
      map_option fst (main L V argv w) = Some EXIT_FAILURE)"
  by (cases "main_result L V argv w")
     (auto simp: main_def EXIT_SUCCESS_def EXIT_FAILURE_def Let_def split: if_splits)

text \<open>\<^verbatim>\<open>show wifi x\<close> is a parameter error and exits with failure; \<^verbatim>\<open>show wifi\<close> succeeds.\<close>

theorem main_exit_status_witness:
  "map_option fst (main_result fakeLib DoCmdView_none [''PmLogCtl'', ''show'', ''wifi'', ''x'']
      (world0 registry0)) = Some RESULT_PARAM_ERR \<and>
   map_option fst (main fakeLib DoCmdView_none [''PmLogCtl'', ''show'', ''wifi'', ''x'']
      (world0 registry0)) = Some EXIT_FAILURE \<and>
   map_option fst (main fakeLib DoCmdView_none [''PmLogCtl'', ''show'', ''wifi'']
      (world0 registry0)) = Some EXIT_SUCCESS"
proof -
  have a: "map_option fst (main_result fakeLib DoCmdView_none
      [''PmLogCtl'', ''show'', ''wifi'', ''x''] (world0 registry0)) = Some RESULT_PARAM_ERR"
    by code_simp
  have b: "map_option fst (main_result fakeLib DoCmdView_none
      [''PmLogCtl'', ''show'', ''wifi''] (world0 registry0)) = Some RESULT_OK"
    by code_simp
  from a b
    main_exit_status[of fakeLib DoCmdView_none "[''PmLogCtl'', ''show'', ''wifi'', ''x'']"
      "world0 registry0"]
    main_exit_status[of fakeLib DoCmdView_none "[''PmLogCtl'', ''show'', ''wifi'']"
      "world0 registry0"]
  show ?thesis by simp
qed

text \<open>\<^verbatim>\<open>help\<close> ends with the outcome help-shown and the exit status \<open>EXIT_FAILURE\<close>.\<close>

theorem help_exit_status_counterexample:
  "map_option fst (main_result fakeLib DoCmdView_none [''PmLogCtl'', ''help''] (world0 registry0)) =
     Some RESULT_HELP \<and>
   map_option fst (main fakeLib DoCmdView_none [''PmLogCtl'', ''help''] (world0 registry0)) =
     Some EXIT_FAILURE \<and>
   EXIT_FAILURE \<noteq> EXIT_SUCCESS"
  by code_simp

subsection \<open>The command set\<close>

lemma printf_simps [simp]:
  "calls (printf fmt args w) = calls w"
  "lib_state (printf fmt args w) = lib_state w"
  "kmsg (printf fmt args w) = kmsg w"
  "fopen_err (printf fmt args w) = fopen_err w"
  "fprintf_err (printf fmt args w) = fprintf_err w"
  "fclose_err (printf fmt args w) = fclose_err w"
  "stdout (printf fmt args w) = stdout w @ [(fmt, args)]"
  by (simp_all add: printf_def)

lemma print_lib_error_simps [simp]:
  "calls (print_lib_error L fmt e w) = calls w"
  "lib_state (print_lib_error L fmt e w) = lib_state w"
  "kmsg (print_lib_error L fmt e w) = kmsg w"
  "fopen_err (print_lib_error L fmt e w) = fopen_err w"
  "fprintf_err (print_lib_error L fmt e w) = fprintf_err w"
  "fclose_err (print_lib_error L fmt e w) = fclose_err w"
  "stdout (print_lib_error L fmt e w) = stdout w @ [(fmt, [PErr e, PStr (PmLogGetErrDbgString L e)])]"
  by (simp_all add: print_lib_error_def)

lemma call_FindContext_effect:
  assumes "call_FindContext L name w = (e, c, w')"
  shows "calls w' = calls w @ [(Call_FindContext name, e)]"
    and "stdout w' = stdout w" and "kmsg w' = kmsg w"
    and "e = fst (PmLogFindContext L name (lib_state w))"
  using assms by (auto simp: call_FindContext_def split: prod.splits)


text \<open>
  Claim C4, as the program has it. When \<^verbatim>\<open>set\<close> is given a name without a wildcard and the
  library does not find a context of that name, the command looks the name up once, prints
  that the context was not found and reports a parameter error, not a run error.
\<close>

theorem DoCmdSet_not_found:
  assumes "\<not> PrvIsWildcardContextName (PrvResolveContextNameAlias name)"
    and "fst (PmLogFindContext L (PrvResolveContextNameAlias name) (lib_state w)) \<noteq> kPmLogErr_None"
  shows "\<exists>e w'. DoCmdSet L (cmd # name # rest) w = Some (RESULT_PARAM_ERR, w') \<and>
           e \<noteq> kPmLogErr_None \<and>
           calls w' = calls w @ [(Call_FindContext (PrvResolveContextNameAlias name), e)] \<and>
           stdout w' = stdout w @
             [(''Context '%s' not found.\<newline>'', [PStr (PrvResolveContextNameAlias name)])]"
proof -
  let ?n = "PrvResolveContextNameAlias name"
  obtain e c w1 where f: "call_FindContext L ?n w = (e, c, w1)"
    by (cases "call_FindContext L ?n w") auto
  from call_FindContext_effect[OF f] assms(2) have e: "e \<noteq> kPmLogErr_None"
    and c: "calls w1 = calls w @ [(Call_FindContext ?n, e)]" and s: "stdout w1 = stdout w"
    by auto
  from f e assms(1)
  have "DoCmdSet L (cmd # name # rest) w =
          Some (RESULT_PARAM_ERR, printf ''Context '%s' not found.\<newline>'' [PStr ?n] w1)"
    by (simp add: DoCmdSet_def Let_def)
  with e c s show ?thesis by simp
qed

text \<open>\<^verbatim>\<open>set nosuch warning\<close> on \<open>registry0\<close>, which has no context of that name.\<close>

theorem DoCmdSet_not_found_witness:
  "\<not> PrvIsWildcardContextName (PrvResolveContextNameAlias ''nosuch'') \<and>
   fst (PmLogFindContext fakeLib (PrvResolveContextNameAlias ''nosuch'')
          (lib_state (world0 registry0))) \<noteq> kPmLogErr_None \<and>
   (\<exists>e w'. DoCmdSet fakeLib [''set'', ''nosuch'', ''warning''] (world0 registry0) =
              Some (RESULT_PARAM_ERR, w') \<and>
            e \<noteq> kPmLogErr_None \<and>
            calls w' = calls (world0 registry0) @
              [(Call_FindContext (PrvResolveContextNameAlias ''nosuch''), e)] \<and>
            stdout w' = stdout (world0 registry0) @
              [(''Context '%s' not found.\<newline>'', [PStr (PrvResolveContextNameAlias ''nosuch'')])])"
proof -
  have a: "\<not> PrvIsWildcardContextName (PrvResolveContextNameAlias ''nosuch'')"
    by code_simp
  have b: "fst (PmLogFindContext fakeLib (PrvResolveContextNameAlias ''nosuch'')
          (lib_state (world0 registry0))) \<noteq> kPmLogErr_None"
    by code_simp
  from a b DoCmdSet_not_found[OF a b, of "''set''" "[''warning'']"] show ?thesis by blast
qed

text \<open>The same invocation reports a parameter error, so it does not report a run error.\<close>

theorem DoCmdSet_not_found_counterexample:
  "map_option fst (DoCmdSet fakeLib [''set'', ''nosuch'', ''warning''] (world0 registry0)) =
     Some RESULT_PARAM_ERR \<and>
   map_option fst (DoCmdSet fakeLib [''set'', ''nosuch'', ''warning''] (world0 registry0)) \<noteq>
     Some RESULT_RUN_ERR \<and>
   fake_find ''nosuch'' registry0 = None"
  by code_simp

subsection \<open>The command show\<close>

lemma call_GetNumContexts_effect:
  assumes "call_GetNumContexts L w = (e, n, w')"
  shows "calls w' = calls w @ [(Call_GetNumContexts, e)]"
    and "stdout w' = stdout w" and "kmsg w' = kmsg w"
    and "e = fst (PmLogGetNumContexts L (lib_state w))"
    and "n = fst (snd (PmLogGetNumContexts L (lib_state w)))"
  using assms by (auto simp: call_GetNumContexts_def split: prod.splits)

lemma PrvGetContextList_none_registered:
  assumes "PmLogGetNumContexts L (lib_state w) = (kPmLogErr_None, n, s)" and "n \<le> 0"
  shows "\<exists>w1. PrvGetContextList L pat w = Some (kPmLogErr_Unknown, [], w1) \<and>
           stdout w1 = stdout w \<and> calls w1 = calls w @ [(Call_GetNumContexts, kPmLogErr_None)]"
  using assms by (simp add: PrvGetContextList_def call_GetNumContexts_def)

lemma PrvGetContextList_some_registered:
  assumes "PrvGetContextList L pat w = Some (kPmLogErr_None, infos, w')"
  shows "0 < fst (snd (PmLogGetNumContexts L (lib_state w)))"
proof -
  obtain e0 n w1 where g: "call_GetNumContexts L w = (e0, n, w1)"
    by (cases "call_GetNumContexts L w") auto
  from assms g have "0 < n" by (auto simp: PrvGetContextList_def split: if_splits)
  with call_GetNumContexts_effect(5)[OF g] show ?thesis by simp
qed

text \<open>
  Claim C7. When the library reports no context at all, the enumeration fails with
  \<open>kPmLogErr_Unknown\<close> and \<^verbatim>\<open>show\<close> prints the error and returns a run error. When the
  enumeration succeeds, so that at least one context is registered, but nothing matches the
  pattern given, \<^verbatim>\<open>show\<close> prints that no contexts matched for a pattern with a wildcard and
  that the context was not found for an exact name, and returns a run error as well.
\<close>

theorem DoCmdShow_nothing_to_show:
  "(PmLogGetNumContexts L (lib_state w) = (kPmLogErr_None, n, s) \<and> n \<le> 0 \<and> length argv \<le> 2 \<longrightarrow>
      (\<exists>w'. DoCmdShow L argv w = Some (RESULT_RUN_ERR, w') \<and>
         stdout w' = stdout w @
           [(''Error getting contexts info: 0x%08X (%s)\<newline>'',
             [PErr kPmLogErr_Unknown, PStr (PmLogGetErrDbgString L kPmLogErr_Unknown)])])) \<and>
   (PrvGetContextList L (Some (PrvResolveContextNameAlias pat)) w = Some (kPmLogErr_None, [], w1) \<longrightarrow>
      0 < fst (snd (PmLogGetNumContexts L (lib_state w))) \<and>
      (\<exists>w'. DoCmdShow L [cmd, pat] w = Some (RESULT_RUN_ERR, w') \<and>
         stdout w' = stdout w @
           [(if PrvIsWildcardContextName (PrvResolveContextNameAlias pat)
               then ''No contexts matched '%s'.\<newline>'' else ''Context '%s' not found.\<newline>'',
             [PStr (PrvResolveContextNameAlias pat)])]))"
proof (intro conjI impI)
  assume a: "PmLogGetNumContexts L (lib_state w) = (kPmLogErr_None, n, s) \<and> n \<le> 0 \<and> length argv \<le> 2"
  let ?pat = "if 2 \<le> length argv then Some (PrvResolveContextNameAlias (argv ! 1)) else None"
  from a PrvGetContextList_none_registered[of L w n s ?pat] obtain w2 where
    r: "PrvGetContextList L ?pat w = Some (kPmLogErr_Unknown, [], w2)" and o: "stdout w2 = stdout w"
    by auto
  from a r have "DoCmdShow L argv w = Some (RESULT_RUN_ERR,
      print_lib_error L ''Error getting contexts info: 0x%08X (%s)\<newline>'' kPmLogErr_Unknown w2)"
    by (simp add: DoCmdShow_def Let_def)
  with o show "\<exists>w'. DoCmdShow L argv w = Some (RESULT_RUN_ERR, w') \<and>
         stdout w' = stdout w @
           [(''Error getting contexts info: 0x%08X (%s)\<newline>'',
             [PErr kPmLogErr_Unknown, PStr (PmLogGetErrDbgString L kPmLogErr_Unknown)])]"
    by simp
next
  assume e: "PrvGetContextList L (Some (PrvResolveContextNameAlias pat)) w = Some (kPmLogErr_None, [], w1)"
  then show "0 < fst (snd (PmLogGetNumContexts L (lib_state w)))"
    by (rule PrvGetContextList_some_registered)
  from PrvGetContextList_effect[OF e] have o: "stdout w1 = stdout w"
    by (simp add: loop_effect_def)
  let ?p = "PrvResolveContextNameAlias pat"
  from e have "DoCmdShow L [cmd, pat] w = Some (RESULT_RUN_ERR,
      printf (if PrvIsWildcardContextName ?p
               then ''No contexts matched '%s'.\<newline>'' else ''Context '%s' not found.\<newline>'')
        [PStr ?p] w1)"
    by (simp add: DoCmdShow_def Let_def)
  with o show "\<exists>w'. DoCmdShow L [cmd, pat] w = Some (RESULT_RUN_ERR, w') \<and>
         stdout w' = stdout w @
           [(if PrvIsWildcardContextName ?p
               then ''No contexts matched '%s'.\<newline>'' else ''Context '%s' not found.\<newline>'',
             [PStr ?p])]"
    by simp
qed

text \<open>\<^verbatim>\<open>show\<close> on an empty registry, and \<^verbatim>\<open>show foo*\<close> and \<^verbatim>\<open>show foo\<close> on \<open>registry0\<close>.\<close>

theorem DoCmdShow_nothing_to_show_witness:
  "map_option (\<lambda>(r, w'). (r, stdout w')) (DoCmdShow fakeLib [''show''] (world0 [])) =
     Some (RESULT_RUN_ERR,
       [(''Error getting contexts info: 0x%08X (%s)\<newline>'',
         [PErr kPmLogErr_Unknown, PStr ''error''])]) \<and>
   map_option (\<lambda>(r, w'). (r, stdout w')) (DoCmdShow fakeLib [''show'', ''foo*''] (world0 registry0)) =
     Some (RESULT_RUN_ERR, [(''No contexts matched '%s'.\<newline>'', [PStr ''foo*''])]) \<and>
   map_option (\<lambda>(r, w'). (r, stdout w')) (DoCmdShow fakeLib [''show'', ''foo''] (world0 registry0)) =
     Some (RESULT_RUN_ERR, [(''Context '%s' not found.\<newline>'', [PStr ''foo''])])"
proof -
  have g: "PmLogGetNumContexts fakeLib (lib_state (world0 [])) = (kPmLogErr_None, 0, [])"
    by code_simp
  have d: "PmLogGetErrDbgString fakeLib kPmLogErr_Unknown = ''error''" by code_simp
  have o: "stdout (world0 ([] :: (string \<times> int) list)) = []" "stdout (world0 registry0) = []"
    by (simp_all add: world0_def)
  have r1: "PrvResolveContextNameAlias ''foo*'' = ''foo*''" "PrvIsWildcardContextName ''foo*''"
    "PrvResolveContextNameAlias ''foo'' = ''foo''" "\<not> PrvIsWildcardContextName ''foo''"
    by code_simp+
  have "map_option (\<lambda>(e, infos, w'). (e, infos))
      (PrvGetContextList fakeLib (Some ''foo*'') (world0 registry0)) = Some (kPmLogErr_None, [])"
    by code_simp
  then obtain w1 where e1: "PrvGetContextList fakeLib (Some (PrvResolveContextNameAlias ''foo*''))
      (world0 registry0) = Some (kPmLogErr_None, [], w1)"
    unfolding r1 by (cases "PrvGetContextList fakeLib (Some ''foo*'') (world0 registry0)") auto
  have "map_option (\<lambda>(e, infos, w'). (e, infos))
      (PrvGetContextList fakeLib (Some ''foo'') (world0 registry0)) = Some (kPmLogErr_None, [])"
    by code_simp
  then obtain w2 where e2: "PrvGetContextList fakeLib (Some (PrvResolveContextNameAlias ''foo''))
      (world0 registry0) = Some (kPmLogErr_None, [], w2)"
    unfolding r1 by (cases "PrvGetContextList fakeLib (Some ''foo'') (world0 registry0)") auto
  from DoCmdShow_nothing_to_show[of fakeLib "world0 []" 0 "[]" "[''show'']"] g d o
  have a: "map_option (\<lambda>(r, w'). (r, stdout w')) (DoCmdShow fakeLib [''show''] (world0 [])) =
     Some (RESULT_RUN_ERR,
       [(''Error getting contexts info: 0x%08X (%s)\<newline>'',
         [PErr kPmLogErr_Unknown, PStr ''error''])])"
    by auto
  from DoCmdShow_nothing_to_show[of fakeLib "world0 registry0" _ _ _ "''foo*''" w1 "''show''"] e1 o r1
  have b: "map_option (\<lambda>(r, w'). (r, stdout w'))
     (DoCmdShow fakeLib [''show'', ''foo*''] (world0 registry0)) =
     Some (RESULT_RUN_ERR, [(''No contexts matched '%s'.\<newline>'', [PStr ''foo*''])])"
    by auto
  from DoCmdShow_nothing_to_show[of fakeLib "world0 registry0" _ _ _ "''foo''" w2 "''show''"] e2 o r1
  have c: "map_option (\<lambda>(r, w'). (r, stdout w'))
     (DoCmdShow fakeLib [''show'', ''foo''] (world0 registry0)) =
     Some (RESULT_RUN_ERR, [(''Context '%s' not found.\<newline>'', [PStr ''foo''])])"
    by auto
  from a b c show ?thesis by blast
qed

subsection \<open>The command set with a pattern\<close>

lemma DoCmdSet_on_pattern:
  assumes "PrvIsWildcardContextName (PrvResolveContextNameAlias pat)"
    and "PmLogStringToLevel L lv = Some level"
  shows "DoCmdSet L [cmd, pat, lv] w =
     (case PrvGetContextList L (Some (PrvResolveContextNameAlias pat)) w of
        None \<Rightarrow> None
      | Some (logErr, contextInfos, w2) \<Rightarrow>
          if logErr \<noteq> kPmLogErr_None
            then Some (RESULT_RUN_ERR,
                   print_lib_error L ''Error getting contexts info: 0x%08X (%s)\<newline>'' logErr w2)
          else if length contextInfos = 0
            then Some (RESULT_RUN_ERR,
                   printf ''No contexts matched '%s'.\<newline>'' [PStr (PrvResolveContextNameAlias pat)] w2)
          else Some (DoCmdSet_loop L level contextInfos w2))"
  using assms by (simp add: DoCmdSet_def Let_def)

text \<open>
  Claim C6. When \<^verbatim>\<open>set\<close> is given a pattern with a wildcard and a valid level, and the
  enumeration succeeds without a match, the command prints that no contexts matched and
  returns a run error. It has made enumerating calls only, so no call that sets a level, and
  the state of the library is unchanged when the enumerating entry points are read-only.
\<close>

theorem DoCmdSet_no_match:
  assumes "PrvIsWildcardContextName (PrvResolveContextNameAlias pat)"
    and "PmLogStringToLevel L lv = Some level"
    and "PrvGetContextList L (Some (PrvResolveContextNameAlias pat)) w = Some (kPmLogErr_None, [], w1)"
  shows "\<exists>w'. DoCmdSet L [cmd, pat, lv] w = Some (RESULT_RUN_ERR, w') \<and>
           only_calls is_query w w' \<and>
           (queries_read_only L \<longrightarrow> lib_state w' = lib_state w) \<and>
           stdout w' = stdout w @
             [(''No contexts matched '%s'.\<newline>'', [PStr (PrvResolveContextNameAlias pat)])]"
proof -
  from PrvGetContextList_effect[OF assms(3)]
  have c: "only_calls is_query w w1" and o: "stdout w1 = stdout w"
    and s: "queries_read_only L \<longrightarrow> lib_state w1 = lib_state w"
    by (simp_all add: loop_effect_def)
  let ?w = "printf ''No contexts matched '%s'.\<newline>'' [PStr (PrvResolveContextNameAlias pat)] w1"
  have "DoCmdSet L [cmd, pat, lv] w = Some (RESULT_RUN_ERR, ?w)"
    using assms(3) by (simp add: DoCmdSet_on_pattern[OF assms(1,2)])
  moreover have "only_calls is_query w ?w" using c by (rule only_calls_printf_right)
  ultimately show ?thesis using o s by simp
qed

text \<open>\<^verbatim>\<open>set foo* err\<close> on \<open>registry0\<close>, where no name starts with \<^verbatim>\<open>foo\<close>.\<close>

theorem DoCmdSet_no_match_witness:
  "PrvIsWildcardContextName (PrvResolveContextNameAlias ''foo*'') \<and>
   PmLogStringToLevel fakeLib ''err'' = Some 3 \<and>
   map_option (\<lambda>(e, infos, w'). (e, infos))
     (PrvGetContextList fakeLib (Some (PrvResolveContextNameAlias ''foo*'')) (world0 registry0)) =
     Some (kPmLogErr_None, []) \<and>
   queries_read_only fakeLib \<and>
   (\<exists>w'. DoCmdSet fakeLib [''set'', ''foo*'', ''err''] (world0 registry0) = Some (RESULT_RUN_ERR, w') \<and>
      only_calls is_query (world0 registry0) w' \<and>
      lib_state w' = registry0 \<and>
      stdout w' = [(''No contexts matched '%s'.\<newline>'', [PStr ''foo*''])])"
proof -
  have a: "PrvIsWildcardContextName (PrvResolveContextNameAlias ''foo*'')" by code_simp
  have b: "PmLogStringToLevel fakeLib ''err'' = Some 3" by code_simp
  have c: "map_option (\<lambda>(e, infos, w'). (e, infos))
     (PrvGetContextList fakeLib (Some (PrvResolveContextNameAlias ''foo*'')) (world0 registry0)) =
     Some (kPmLogErr_None, [])" by code_simp
  then obtain w1 where e: "PrvGetContextList fakeLib (Some (PrvResolveContextNameAlias ''foo*''))
      (world0 registry0) = Some (kPmLogErr_None, [], w1)"
    by (cases "PrvGetContextList fakeLib (Some (PrvResolveContextNameAlias ''foo*''))
          (world0 registry0)") auto
  have q: "queries_read_only fakeLib"
    by (auto simp: queries_read_only_def fakeLib_def split: option.splits)
  have r: "PrvResolveContextNameAlias ''foo*'' = ''foo*''" by code_simp
  have o: "stdout (world0 registry0) = []" "lib_state (world0 registry0) = registry0"
    by (simp_all add: world0_def)
  from DoCmdSet_no_match[OF a b e, of "''set''"] q o r
  have "\<exists>w'. DoCmdSet fakeLib [''set'', ''foo*'', ''err''] (world0 registry0) = Some (RESULT_RUN_ERR, w') \<and>
      only_calls is_query (world0 registry0) w' \<and>
      lib_state w' = registry0 \<and>
      stdout w' = [(''No contexts matched '%s'.\<newline>'', [PStr ''foo*''])]"
    by auto
  with a b c q show ?thesis by blast
qed




subsection \<open>The command klog\<close>

lemma klog_options_Cons: "klog_options (t # ts) = ''-p'' # t # klog_options ts"
  by (simp add: klog_options_def)

lemma klog_level_Cons:
  "PmLogStringToLevel L t = Some l \<Longrightarrow> klog_level L (t # ts) d = klog_level L ts l"
  by (simp add: klog_level_def)

lemma dash_iff: "(case arg of [] \<Rightarrow> False | ch # _ \<Rightarrow> ch = CHR ''-'') = prefix ''-'' arg"
  by (cases arg) auto

lemma cstring_dash_p: "cstring ''-p''"
  by (simp add: cstring_def NUL_def)

lemma DoCmdKLog_args_Inl:
  "DoCmdKLog_args L args (level0, msg0) w = (Inl r, w') \<Longrightarrow>
   r = RESULT_PARAM_ERR \<and> no_call w w'"
proof (induction L args "(level0, msg0)" w arbitrary: level0 msg0 rule: DoCmdKLog_args.induct)
  case (1 L vars w)
  then show ?case by simp
next
  case (2 L arg rest level0 msg0 w)
  show ?case
  proof (cases "case arg of [] \<Rightarrow> False | ch # _ \<Rightarrow> ch = CHR ''-''")
    case True
    show ?thesis
    proof (cases "strcmp arg ''-p'' = 0")
      case False
      with True "2.prems" show ?thesis by (auto simp: no_call_def)
    next
      case p: True
      show ?thesis
      proof (cases rest)
        case Nil
        with True p "2.prems" show ?thesis by (auto simp: no_call_def)
      next
        case (Cons arg1 rest1)
        show ?thesis
        proof (cases "PmLogStringToLevel L arg1")
          case None
          with True p Cons "2.prems" show ?thesis by (auto simp: no_call_def)
        next
          case (Some level1)
          with True p Cons "2.prems"
          have "DoCmdKLog_args L rest1 (level1, msg0) w = (Inl r, w')" by auto
          from "2.hyps"(1)[OF True p Cons Some this] show ?thesis .
        qed
      qed
    qed
  next
    case False
    show ?thesis
    proof (cases "msg0 = None")
      case True
      with False "2.prems"
      have "DoCmdKLog_args L rest (level0, Some arg) w = (Inl r, w')" by auto
      from "2.hyps"(2)[OF False True this] show ?thesis .
    next
      case n: False
      with False "2.prems" show ?thesis by (auto simp: no_call_def)
    qed
  qed
qed

lemma DoCmdKLog_args_Inr:
  "list_all cstring args \<Longrightarrow>
   DoCmdKLog_args L args (level0, msg0) w = (Inr (level, msg), w') \<Longrightarrow>
   w' = w \<and>
   ((\<exists>ts. args = klog_options ts \<and> list_all (\<lambda>t. PmLogStringToLevel L t \<noteq> None) ts \<and>
          klog_level L ts level0 = Some level \<and> msg = msg0) \<or>
    (msg0 = None \<and>
     (\<exists>t1 m t2. args = klog_options t1 @ m # klog_options t2 \<and> \<not> prefix ''-'' m \<and>
        list_all (\<lambda>t. PmLogStringToLevel L t \<noteq> None) (t1 @ t2) \<and>
        klog_level L (t1 @ t2) level0 = Some level \<and> msg = Some m)))"
proof (induction L args "(level0, msg0)" w arbitrary: level0 msg0 rule: DoCmdKLog_args.induct)
  case 1
  then show ?case
    by (auto simp: klog_level_def klog_options_def intro!: exI[of _ "[]"])
next
  case (2 L arg rest level0 msg0 w)
  from "2.prems"(1) have ca: "cstring arg" and cr: "list_all cstring rest" by auto
  show ?case
  proof (cases "case arg of [] \<Rightarrow> False | ch # _ \<Rightarrow> ch = CHR ''-''")
    case True
    with "2.prems"(2) obtain arg1 rest1 level1 where
      r: "rest = arg1 # rest1" and l: "PmLogStringToLevel L arg1 = Some level1"
      and p: "strcmp arg ''-p'' = 0"
      and k: "DoCmdKLog_args L rest1 (level1, msg0) w = (Inr (level, msg), w')"
      by (auto split: if_splits list.splits option.splits)
    from p ca have a: "arg = ''-p''" by (simp add: strcmp_eq_0_iff cstring_dash_p)
    from cr r have cr1: "list_all cstring rest1" by simp
    from "2.hyps"(1)[OF True p r l cr1 k] have w: "w' = w"
      and d: "(\<exists>ts. rest1 = klog_options ts \<and> list_all (\<lambda>t. PmLogStringToLevel L t \<noteq> None) ts \<and>
                klog_level L ts level1 = Some level \<and> msg = msg0) \<or>
              (msg0 = None \<and>
               (\<exists>t1 m t2. rest1 = klog_options t1 @ m # klog_options t2 \<and> \<not> prefix ''-'' m \<and>
                  list_all (\<lambda>t. PmLogStringToLevel L t \<noteq> None) (t1 @ t2) \<and>
                  klog_level L (t1 @ t2) level1 = Some level \<and> msg = Some m))"
      by auto
    from d show ?thesis
    proof
      assume "\<exists>ts. rest1 = klog_options ts \<and> list_all (\<lambda>t. PmLogStringToLevel L t \<noteq> None) ts \<and>
                klog_level L ts level1 = Some level \<and> msg = msg0"
      then obtain ts where ts: "rest1 = klog_options ts"
        "list_all (\<lambda>t. PmLogStringToLevel L t \<noteq> None) ts"
        "klog_level L ts level1 = Some level" "msg = msg0" by blast
      have "arg # rest = klog_options (arg1 # ts)" using a r ts(1) by (simp add: klog_options_Cons)
      moreover have "list_all (\<lambda>t. PmLogStringToLevel L t \<noteq> None) (arg1 # ts)"
        using l ts(2) by simp
      moreover have "klog_level L (arg1 # ts) level0 = Some level"
        using ts(3) by (simp add: klog_level_Cons[OF l])
      ultimately show ?thesis using w ts(4) by blast
    next
      assume "msg0 = None \<and>
               (\<exists>t1 m t2. rest1 = klog_options t1 @ m # klog_options t2 \<and> \<not> prefix ''-'' m \<and>
                  list_all (\<lambda>t. PmLogStringToLevel L t \<noteq> None) (t1 @ t2) \<and>
                  klog_level L (t1 @ t2) level1 = Some level \<and> msg = Some m)"
      then obtain t1 m t2 where n: "msg0 = None" and t: "rest1 = klog_options t1 @ m # klog_options t2"
        "\<not> prefix ''-'' m" "list_all (\<lambda>t. PmLogStringToLevel L t \<noteq> None) (t1 @ t2)"
        "klog_level L (t1 @ t2) level1 = Some level" "msg = Some m" by blast
      have "arg # rest = klog_options (arg1 # t1) @ m # klog_options t2"
        using a r t(1) by (simp add: klog_options_Cons)
      moreover have "list_all (\<lambda>t. PmLogStringToLevel L t \<noteq> None) ((arg1 # t1) @ t2)"
        using l t(3) by simp
      moreover have "klog_level L ((arg1 # t1) @ t2) level0 = Some level"
        using t(4) klog_level_Cons[OF l, of "t1 @ t2" level0] by simp
      ultimately show ?thesis using w n t(2,5) by blast
    qed
  next
    case False
    with "2.prems"(2) have n: "msg0 = None"
      and k: "DoCmdKLog_args L rest (level0, Some arg) w = (Inr (level, msg), w')"
      by (auto split: if_splits)
    from "2.hyps"(2)[OF False n cr k] obtain ts where w: "w' = w" and ts: "rest = klog_options ts"
      "list_all (\<lambda>t. PmLogStringToLevel L t \<noteq> None) ts"
      "klog_level L ts level0 = Some level" "msg = Some arg" by auto
    have "arg # rest = klog_options [] @ arg # klog_options ts"
      using ts(1) by (simp add: klog_options_def)
    moreover have "\<not> prefix ''-'' arg" using False by (simp add: dash_iff)
    ultimately show ?thesis using w n ts(2,3,4) by (metis append_Nil)
  qed
qed

lemma klog_options_inj: "klog_options ts = klog_options us \<Longrightarrow> ts = us"
proof (induction ts arbitrary: us)
  case Nil
  then show ?case by (cases us) (auto simp: klog_options_def)
next
  case (Cons t ts)
  then show ?case by (cases us) (auto simp: klog_options_Cons klog_options_def)
qed

lemma klog_shape_unique:
  "klog_options t1 @ m # klog_options t2 = klog_options u1 @ n # klog_options u2 \<Longrightarrow>
   \<not> prefix ''-'' m \<Longrightarrow> \<not> prefix ''-'' n \<Longrightarrow> t1 = u1 \<and> m = n \<and> t2 = u2"
proof (induction t1 arbitrary: u1)
  case Nil
  show ?case
  proof (cases u1)
    case Nil
    with Nil.prems show ?thesis by (auto simp: klog_options_def dest: klog_options_inj[unfolded klog_options_def])
  next
    case (Cons u us)
    with Nil.prems show ?thesis by (auto simp: klog_options_Cons klog_options_def)
  qed
next
  case (Cons t ts)
  show ?case
  proof (cases u1)
    case Nil
    with Cons.prems show ?thesis by (auto simp: klog_options_Cons klog_options_def)
  next
    case (Cons u us)
    with Cons.prems Cons.IH[of us] show ?thesis by (auto simp: klog_options_Cons)
  qed
qed

lemma WriteKMsg_OK:
  assumes "WriteKMsg priority msg w = Some (RESULT_OK, w')"
  shows "(let line = (if 0 \<le> priority then ''<'' @ dec_int priority @ ''>'' else []) @ msg @ ''\<newline>''
          in kmsg w' = kmsg w @ (case fclose_err w of None \<Rightarrow> line | Some taken \<Rightarrow> take taken line))"
  using assms
  by (auto simp: WriteKMsg_def mysprintf_priority_def Let_def simp del: take_append
      split: option.splits if_splits prod.splits)


text \<open>
  Claim C8, as the program has it. On a successful \<^verbatim>\<open>klog\<close> the arguments are options
  \<^verbatim>\<open>-p\<close> with a level token each, around exactly one message, which does not start with
  \<^verbatim>\<open>-\<close>. The line the command puts out is the message, a newline after it, and before it
  the level in decimal between angle brackets when the level is not negative. The level is
  that of the last \<^verbatim>\<open>-p\<close> option, and the default \<^verbatim>\<open>kPmLogLevel_Notice\<close> when there is none:
  without \<^verbatim>\<open>-p\<close> the prefix of the default level is put out, and only a negative level
  leaves the prefix out. The device takes the whole line when the stream is written out at
  its closing. The program does not look at the result of the closing: when that fails, the
  command is successful all the same and the device has taken a front part of the line only.
\<close>

theorem DoCmdKLog_line:
  assumes "DoCmdKLog L argv w = Some (RESULT_OK, w')"
    and "list_all cstring (tl argv)"
  shows "(\<exists>t1 m t2. tl argv = klog_options t1 @ m # klog_options t2 \<and> \<not> prefix ''-'' m) \<and>
         (tl argv = klog_options t1 @ m # klog_options t2 \<and> \<not> prefix ''-'' m \<longrightarrow>
            list_all (\<lambda>t. PmLogStringToLevel L t \<noteq> None) (t1 @ t2) \<and>
            (\<exists>level. klog_level L (t1 @ t2) (kPmLogLevel_Notice L) = Some level \<and>
               (let line = (if 0 \<le> level then ''<'' @ dec_int level @ ''>'' else []) @ m @ ''\<newline>''
                in kmsg w' =
                     kmsg w @ (case fclose_err w of None \<Rightarrow> line | Some taken \<Rightarrow> take taken line)))) \<and>
         (argv = [cmd, msg] \<longrightarrow>
            (let line = (if 0 \<le> kPmLogLevel_Notice L
                           then ''<'' @ dec_int (kPmLogLevel_Notice L) @ ''>'' else []) @
                        msg @ ''\<newline>''
             in kmsg w' =
                  kmsg w @ (case fclose_err w of None \<Rightarrow> line | Some taken \<Rightarrow> take taken line))) \<and>
         (argv = [cmd, ''-p'', token, msg] \<longrightarrow>
            (\<exists>level. PmLogStringToLevel L token = Some level \<and>
               (let line = (if 0 \<le> level then ''<'' @ dec_int level @ ''>'' else []) @ msg @ ''\<newline>''
                in kmsg w' =
                     kmsg w @ (case fclose_err w of None \<Rightarrow> line | Some taken \<Rightarrow> take taken line))))"
proof -
  from assms(1) obtain level n w1 where
    a: "DoCmdKLog_args L (tl argv) (kPmLogLevel_Notice L, None) w = (Inr (level, Some n), w1)"
    and wr: "WriteKMsg level n w1 = Some (RESULT_OK, w')"
    by (auto simp: DoCmdKLog_def split: prod.splits sum.splits option.splits
        dest: DoCmdKLog_args_Inl)
  from DoCmdKLog_args_Inr[OF assms(2) a] obtain u1 u2 where w1: "w1 = w"
    and t: "tl argv = klog_options u1 @ n # klog_options u2" "\<not> prefix ''-'' n"
      "list_all (\<lambda>t. PmLogStringToLevel L t \<noteq> None) (u1 @ u2)"
      "klog_level L (u1 @ u2) (kPmLogLevel_Notice L) = Some level"
    by auto
  from WriteKMsg_OK[OF wr] w1
  have k: "(let line = (if 0 \<le> level then ''<'' @ dec_int level @ ''>'' else []) @ n @ ''\<newline>''
            in kmsg w' =
                 kmsg w @ (case fclose_err w of None \<Rightarrow> line | Some taken \<Rightarrow> take taken line))"
    by blast
  have ex: "\<exists>t1 m t2. tl argv = klog_options t1 @ m # klog_options t2 \<and> \<not> prefix ''-'' m"
    using t(1,2) by blast
  have gen: "list_all (\<lambda>t. PmLogStringToLevel L t \<noteq> None) (t1 @ t2) \<and>
            (\<exists>level. klog_level L (t1 @ t2) (kPmLogLevel_Notice L) = Some level \<and>
               (let line = (if 0 \<le> level then ''<'' @ dec_int level @ ''>'' else []) @ m @ ''\<newline>''
                in kmsg w' =
                     kmsg w @ (case fclose_err w of None \<Rightarrow> line | Some taken \<Rightarrow> take taken line)))"
    if "tl argv = klog_options t1 @ m # klog_options t2 \<and> \<not> prefix ''-'' m"
  proof -
    from that t(1,2) klog_shape_unique[of t1 m t2 u1 n u2]
    have "t1 = u1" "m = n" "t2 = u2" by auto
    with t(3,4) k show ?thesis by blast
  qed
  have one: "(let line = (if 0 \<le> kPmLogLevel_Notice L
                           then ''<'' @ dec_int (kPmLogLevel_Notice L) @ ''>'' else []) @
                        msg @ ''\<newline>''
             in kmsg w' =
                  kmsg w @ (case fclose_err w of None \<Rightarrow> line | Some taken \<Rightarrow> take taken line))"
    if "argv = [cmd, msg]"
  proof -
    from a that have "level = kPmLogLevel_Notice L" "n = msg"
      by (auto split: if_splits list.splits)
    with k show ?thesis by blast
  qed
  have two: "\<exists>level. PmLogStringToLevel L token = Some level \<and>
               (let line = (if 0 \<le> level then ''<'' @ dec_int level @ ''>'' else []) @ msg @ ''\<newline>''
                in kmsg w' =
                     kmsg w @ (case fclose_err w of None \<Rightarrow> line | Some taken \<Rightarrow> take taken line))"
    if "argv = [cmd, ''-p'', token, msg]"
  proof -
    from a that have "PmLogStringToLevel L token = Some level" "n = msg"
      by (auto split: if_splits list.splits option.splits)
    with k show ?thesis by blast
  qed
  from ex gen one two show ?thesis by blast
qed

text \<open>\<^verbatim>\<open>klog -p err boom\<close> puts out \<^verbatim>\<open><3>boom\<close> and a newline; with the level \<^verbatim>\<open>none\<close>, of
  rank \<open>-1\<close>, the prefix is left out.\<close>

theorem DoCmdKLog_line_witness:
  "map_option fst (DoCmdKLog fakeLib [''klog'', ''-p'', ''err'', ''boom''] (world0 registry0)) =
     Some RESULT_OK \<and>
   list_all cstring (tl [''klog'', ''-p'', ''err'', ''boom'']) \<and>
   map_option (kmsg \<circ> snd)
     (DoCmdKLog fakeLib [''klog'', ''-p'', ''err'', ''boom''] (world0 registry0)) =
     Some ''<3>boom\<newline>'' \<and>
   map_option (kmsg \<circ> snd)
     (DoCmdKLog fakeLib [''klog'', ''-p'', ''none'', ''boom''] (world0 registry0)) =
     Some ''boom\<newline>''"
proof -
  have a: "map_option fst (DoCmdKLog fakeLib [''klog'', ''-p'', ''err'', ''boom'']
      (world0 registry0)) = Some RESULT_OK"
    by code_simp
  then obtain w' where r: "DoCmdKLog fakeLib [''klog'', ''-p'', ''err'', ''boom'']
      (world0 registry0) = Some (RESULT_OK, w')"
    by (cases "DoCmdKLog fakeLib [''klog'', ''-p'', ''err'', ''boom''] (world0 registry0)") auto
  have cs: "list_all cstring (tl [''klog'', ''-p'', ''err'', ''boom''])"
    by (simp add: cstring_def NUL_def)
  have l: "PmLogStringToLevel fakeLib ''err'' = Some 3" by code_simp
  have d: "dec_int 3 = ''3''" by code_simp
  have k0: "kmsg (world0 registry0) = []" "fclose_err (world0 registry0) = None"
    by (simp_all add: world0_def)
  from DoCmdKLog_line[OF r cs, of _ _ _ "''klog''" "''boom''" "''err''"] l d k0
  have "kmsg w' = ''<3>boom\<newline>''" by (simp add: Let_def)
  with r have b: "map_option (kmsg \<circ> snd)
     (DoCmdKLog fakeLib [''klog'', ''-p'', ''err'', ''boom''] (world0 registry0)) =
     Some ''<3>boom\<newline>''" by simp
  have c: "map_option (kmsg \<circ> snd)
     (DoCmdKLog fakeLib [''klog'', ''-p'', ''none'', ''boom''] (world0 registry0)) =
     Some ''boom\<newline>''" by code_simp
  from a cs b c show ?thesis by blast
qed

text \<open>\<^verbatim>\<open>klog boom\<close>, with no level given, puts out the prefix of the default level. And when
  writing the buffer out fails at the closing of the stream before any byte is taken,
  \<^verbatim>\<open>klog -p err boom\<close> is successful with nothing on the device.\<close>

theorem DoCmdKLog_default_level_counterexample:
  "map_option (\<lambda>(r, w'). (r, kmsg w'))
     (DoCmdKLog fakeLib [''klog'', ''boom''] (world0 registry0)) =
     Some (RESULT_OK, ''<5>boom\<newline>'') \<and>
   ''<5>boom\<newline>'' \<noteq> ''boom\<newline>'' \<and>
   map_option (\<lambda>(r, w'). (r, kmsg w'))
     (DoCmdKLog fakeLib [''klog'', ''-p'', ''err'', ''boom'']
        ((world0 registry0)\<lparr>fclose_err := Some 0\<rparr>)) =
     Some (RESULT_OK, [])"
  by code_simp

subsection \<open>Parameter errors\<close>

























end
